theory Spec2Isabelle
  imports Main "HOL-Library.Sublist"
begin

section \<open>Layer encoders of the capture toolkit (encoder/layerEncoder.go)\<close>

text \<open>
  The package keeps its encoders as objects behind pointers: the slice
  \<open>layerEncoderSlice\<close> and the map \<open>LayerEncoders\<close> both hold pointers to the same
  objects, and \<open>Init\<close> writes into the object. The model therefore has an explicit store
  (\<open>heap\<close>) from encoder references to encoder objects, the two package variables, and a
  trace of what the package asks of the operating system (files created, units written to
  a sink, writers closed). Fatal exits and panics are values of \<open>Outcome\<close>.
\<close>

subsection \<open>Data\<close>

text \<open>\<open>gopacket.LayerType\<close>: a number, and the name its \<open>String()\<close> method gives.\<close>

datatype LayerType = LayerType int string

fun LayerType_String :: "LayerType \<Rightarrow> string" where
  "LayerType_String (LayerType n name) = name"

type_synonym types_Type = nat
type_synonym gopacket_Layer = "nat list"
type_synonym time_Time = int

text \<open>The fields of \<open>Config\<close> that this file reads.\<close>

record Config =
  IncludeEncoders :: string
  ExcludeEncoders :: string
  Buffer :: bool
  Compression :: bool
  CSV :: bool
  Out :: string
  WriteChan :: bool

text \<open>
  Messages: what a handler returns, what \<open>NewHeader\<close> builds for a binary sink and what
  \<open>netcap.InitRecord\<close> builds for the column row of a tabular sink. The two builders
  are library calls of the package and stay symbolic.
\<close>

datatype proto_Message =
    NewHeader types_Type Config
  | InitRecord types_Type
  | Record string

datatype error = IOError string

datatype Fatal =
    InvalidProto string
  | PanicString string
  | PanicError error
  | NilDereference

datatype 'a Outcome = Return 'a | Panic Fatal

text \<open>
  A file is named by the two arguments \<open>CreateFile\<close> receives: the path
  \<open>filepath.Join(out, name)\<close>, kept symbolic, and the extension.
\<close>

datatype Path = filepath_Join string string

datatype File = File Path string

text \<open>
  Writers, each constructor named after the call that builds it. \<open>os_File\<close> is a
  \<open>*os.File\<close> used as a writer (\<open>None\<close> is the nil pointer).
\<close>

datatype Writer =
    os_File "File option"
  | bufio_NewWriterSize Writer int
  | gzip_NewWriter Writer
  | chanWriter nat
  | delimited_NewWriter Writer
  | NewAtomicDelimitedWriter Writer
  | NewCSVWriter Writer

type_synonym LayerEncoderHandler = "gopacket_Layer \<Rightarrow> string \<Rightarrow> proto_Message option"

record LayerEncoder =
  Layer :: LayerType
  Type :: types_Type
  file' :: "File option"
  bWriter :: "Writer option"
  gWriter :: "Writer option"
  dWriter :: "Writer option"
  aWriter :: "Writer option"
  Handler :: LayerEncoderHandler
  cWriter :: "Writer option"
  csvWriter :: "Writer option"
  compress :: bool
  csv :: bool
  buffer :: bool
  out :: string

text \<open>The encoder objects of the package, and any other allocated later.\<close>

datatype EncoderRef =
    TCPEncoder
  | UDPEncoder
  | IPv4Encoder
  | IPv6Encoder
  | DHCPv4Encoder
  | DHCPv6Encoder
  | ICMPv4Encoder
  | ICMPv6Encoder
  | ICMPv6EchoEncoder
  | ICMPv6NeighborSolicitationEncoder
  | ICMPv6RouterSolicitationEncoder
  | DNSEncoder
  | ARPEncoder
  | EthernetEncoder
  | Dot1QEncoder
  | Dot11Encoder
  | NTPEncoder
  | SIPEncoder
  | IGMPEncoder
  | LLCEncoder
  | IPv6HopByHopEncoder
  | SCTPEncoder
  | SNAPEncoder
  | LinkLayerDiscoveryEncoder
  | ICMPv6NeighborAdvertisementEncoder
  | ICMPv6RouterAdvertisementEncoder
  | EthernetCTPEncoder
  | EthernetCTPReplyEncoder
  | LinkLayerDiscoveryInfoEncoder
  | Allocated nat

datatype Payload =
    CSVHeaderRow proto_Message
  | CSVRecordRow proto_Message
  | Frame proto_Message

datatype Event =
    FileCreated File
  | Written Writer Payload
  | WriteFailed Writer Payload error
  | GzipClosed "Writer option"
  | Flushed "Writer option"
  | FileClosed string "File option" string

text \<open>
  The state of the package and of its surroundings. \<open>allEncoderNames\<close> and
  \<open>BlockSize\<close> are package variables filled in elsewhere; \<open>wr_outcomes\<close> scripts the
  results of the coming sink writes (\<open>Some e\<close>: the write fails with \<open>e\<close>; an exhausted
  script means success); \<open>stat\<close> is what the file system reports for a file when it is
  closed.
\<close>

record World =
  layerEncoderSlice :: "EncoderRef list"
  LayerEncoders :: "LayerType \<rightharpoonup> EncoderRef"
  heap :: "EncoderRef \<Rightarrow> LayerEncoder"
  allEncoderNames :: "string set"
  BlockSize :: int
  chans :: nat
  wr_outcomes :: "error option list"
  stat :: "File option \<Rightarrow> string \<times> int"
  trace :: "Event list"

text \<open>The value of \<open>layerEncoderSlice\<close> when the program starts.\<close>

definition layerEncoderSlice_initial :: "EncoderRef list" where
  "layerEncoderSlice_initial =
    [TCPEncoder, UDPEncoder, IPv4Encoder, IPv6Encoder, DHCPv4Encoder, DHCPv6Encoder,
     ICMPv4Encoder, ICMPv6Encoder, ICMPv6EchoEncoder, ICMPv6NeighborSolicitationEncoder,
     ICMPv6RouterSolicitationEncoder, DNSEncoder, ARPEncoder, EthernetEncoder,
     Dot1QEncoder, Dot11Encoder, NTPEncoder, SIPEncoder, IGMPEncoder, LLCEncoder,
     IPv6HopByHopEncoder, SCTPEncoder, SNAPEncoder, LinkLayerDiscoveryEncoder,
     ICMPv6NeighborAdvertisementEncoder, ICMPv6RouterAdvertisementEncoder,
     EthernetCTPEncoder, EthernetCTPReplyEncoder, LinkLayerDiscoveryInfoEncoder]"

subsection \<open>Helpers of the package that live in other files\<close>

text \<open>
  Modelled from the spec: \<open>invalidProto\<close> is not in this file. The spec makes an unknown
  name a fatal configuration error, so the call ends the run with the name.
\<close>

definition invalidProto :: "string \<Rightarrow> Fatal" where
  "invalidProto name = InvalidProto name"

text \<open>
  Modelled from the spec: \<open>CreateFile\<close> is not in this file. It creates the file its
  two arguments name and returns the handle.
\<close>

definition CreateFile :: "Path \<Rightarrow> string \<Rightarrow> World \<Rightarrow> File \<times> World" where
  "CreateFile name ext s = (File name ext, s\<lparr>trace := trace s @ [FileCreated (File name ext)]\<rparr>)"

text \<open>
  Modelled from the spec: \<open>newChanWriter\<close> is not in this file. It makes a fresh
  in-process channel sink.
\<close>

definition newChanWriter :: "World \<Rightarrow> Writer \<times> World" where
  "newChanWriter s = (chanWriter (chans s), s\<lparr>chans := chans s + 1\<rparr>)"

text \<open>
  Modelled from the spec: the write operations of the serializing writers
  (\<open>PutProto\<close>, \<open>WriteHeader\<close>, \<open>WriteRecord\<close>) are not in this file. One call hands one
  unit to the sink and returns the sink's error, if any; the next scripted outcome decides.
  A call through a nil writer is a nil dereference.
\<close>

definition sink_write :: "Writer \<Rightarrow> Payload \<Rightarrow> World \<Rightarrow> error option \<times> World" where
  "sink_write w p s =
    (case wr_outcomes s of
       [] \<Rightarrow> (None, s\<lparr>trace := trace s @ [Written w p]\<rparr>)
     | None # os \<Rightarrow> (None, s\<lparr>wr_outcomes := os, trace := trace s @ [Written w p]\<rparr>)
     | Some e # os \<Rightarrow> (Some e, s\<lparr>wr_outcomes := os, trace := trace s @ [WriteFailed w p e]\<rparr>))"

definition writer_call :: "Writer option \<Rightarrow> Payload \<Rightarrow> World \<Rightarrow> error option Outcome \<times> World" where
  "writer_call w p s =
    (case w of
       None \<Rightarrow> (Panic NilDereference, s)
     | Some w' \<Rightarrow> (case sink_write w' p s of (err, s') \<Rightarrow> (Return err, s')))"

definition PutProto :: "Writer option \<Rightarrow> proto_Message \<Rightarrow> World \<Rightarrow> error option Outcome \<times> World" where
  "PutProto w m s = writer_call w (Frame m) s"

definition WriteHeader :: "Writer option \<Rightarrow> proto_Message \<Rightarrow> World \<Rightarrow> error option Outcome \<times> World" where
  "WriteHeader w m s = writer_call w (CSVHeaderRow m) s"

definition WriteRecord :: "Writer option \<Rightarrow> proto_Message \<Rightarrow> World \<Rightarrow> error option Outcome \<times> World" where
  "WriteRecord w m s = writer_call w (CSVRecordRow m) s"

text \<open>
  Modelled from the spec: \<open>CloseGzipWriters\<close>, \<open>FlushWriters\<close> and \<open>CloseFile\<close> are
  not in this file. The first finalizes the compressor, the second flushes the buffer, the
  third closes the file and reports its final name and size.
\<close>

definition CloseGzipWriters :: "Writer option \<Rightarrow> World \<Rightarrow> World" where
  "CloseGzipWriters w s = s\<lparr>trace := trace s @ [GzipClosed w]\<rparr>"

definition FlushWriters :: "Writer option \<Rightarrow> World \<Rightarrow> World" where
  "FlushWriters w s = s\<lparr>trace := trace s @ [Flushed w]\<rparr>"

definition CloseFile :: "string \<Rightarrow> File option \<Rightarrow> string \<Rightarrow> World \<Rightarrow> (string \<times> int) \<times> World" where
  "CloseFile outDir f typ s = (stat s f, s\<lparr>trace := trace s @ [FileClosed outDir f typ]\<rparr>)"

subsection \<open>strings.Split on a comma\<close>

text \<open>
  \<open>strings.Split(s, ",")\<close>: the pieces between the commas, empty pieces included; the
  empty string gives one empty piece.
\<close>

fun strings_Split :: "string \<Rightarrow> string list" where
  "strings_Split [] = [[]]"
| "strings_Split (c # cs) =
    (if c = CHR '','' then [] # strings_Split cs
     else (c # hd (strings_Split cs)) # tl (strings_Split cs))"

subsection \<open>InitLayerEncoders: choosing the encoders\<close>

text \<open>Lines 130 to 138: every non-empty include name is checked, then put into \<open>inMap\<close>.\<close>

fun include_loop :: "string set \<Rightarrow> string list \<Rightarrow> (string \<rightharpoonup> bool) \<Rightarrow> Fatal + (string \<rightharpoonup> bool)" where
  "include_loop names [] inMap = Inr inMap"
| "include_loop names (name # rest) inMap =
    (if name \<noteq> [] then
       (if name \<notin> names then Inl (invalidProto name)
        else include_loop names rest (inMap(name \<mapsto> True)))
     else include_loop names rest inMap)"

text \<open>Lines 140 to 144: the encoders whose layer name is a key of \<open>inMap\<close>, appended in turn.\<close>

fun selection_loop ::
  "(EncoderRef \<Rightarrow> string) \<Rightarrow> (string \<rightharpoonup> bool) \<Rightarrow> EncoderRef list \<Rightarrow> EncoderRef list \<Rightarrow> EncoderRef list" where
  "selection_loop nm inMap [] selection = selection"
| "selection_loop nm inMap (e # es) selection =
    selection_loop nm inMap es (if nm e \<in> dom inMap then selection @ [e] else selection)"

text \<open>
  Lines 154 to 160: the index of the first encoder with the name, and the slice with that
  one entry spliced out (\<open>append(s[:i], s[i+1:]...)\<close>); nothing changes when no entry has
  the name.
\<close>

fun first_index :: "(EncoderRef \<Rightarrow> string) \<Rightarrow> string \<Rightarrow> EncoderRef list \<Rightarrow> nat \<Rightarrow> nat option" where
  "first_index nm name [] i = None"
| "first_index nm name (e # es) i =
    (if name = nm e then Some i else first_index nm name es (Suc i))"

definition remove_encoder :: "(EncoderRef \<Rightarrow> string) \<Rightarrow> string \<Rightarrow> EncoderRef list \<Rightarrow> EncoderRef list" where
  "remove_encoder nm name slice =
    (case first_index nm name slice 0 of
       None \<Rightarrow> slice
     | Some i \<Rightarrow> take i slice @ drop (i + 1) slice)"

text \<open>
  Lines 148 to 162: every non-empty exclude name is checked, then removed. The slice is
  returned also when the loop ends fatally, as the package variable holds it then.
\<close>

fun exclude_loop ::
  "string set \<Rightarrow> (EncoderRef \<Rightarrow> string) \<Rightarrow> string list \<Rightarrow> EncoderRef list \<Rightarrow> Fatal option \<times> EncoderRef list" where
  "exclude_loop names nm [] slice = (None, slice)"
| "exclude_loop names nm (name # rest) slice =
    (if name \<noteq> [] then
       (if name \<notin> names then (Some (invalidProto name), slice)
        else exclude_loop names nm rest (remove_encoder nm name slice))
     else exclude_loop names nm rest slice)"

text \<open>Lines 121 to 162 on lists: the include block, then the exclude loop.\<close>

definition resolve_slice ::
  "string set \<Rightarrow> (EncoderRef \<Rightarrow> string) \<Rightarrow> Config \<Rightarrow> EncoderRef list \<Rightarrow> Fatal option \<times> EncoderRef list" where
  "resolve_slice names nm c slice =
    (let ins = strings_Split (IncludeEncoders c);
         exs = strings_Split (ExcludeEncoders c)
     in
     if 0 < length ins \<and> ins ! 0 \<noteq> [] then
       (case include_loop names ins Map.empty of
          Inl f \<Rightarrow> (Some f, slice)
        | Inr inMap \<Rightarrow> exclude_loop names nm exs (selection_loop nm inMap slice []))
     else exclude_loop names nm exs slice)"

definition layer_name :: "World \<Rightarrow> EncoderRef \<Rightarrow> string" where
  "layer_name s e = LayerType_String (Layer (heap s e))"

definition resolve :: "Config \<Rightarrow> World \<Rightarrow> unit Outcome \<times> World" where
  "resolve c s =
    (case resolve_slice (allEncoderNames s) (layer_name s) c (layerEncoderSlice s) of
       (Some f, slice) \<Rightarrow> (Panic f, s\<lparr>layerEncoderSlice := slice\<rparr>)
     | (None, slice) \<Rightarrow> (Return (), s\<lparr>layerEncoderSlice := slice\<rparr>))"

subsection \<open>Init: building the writers of one encoder\<close>

definition Init ::
  "EncoderRef \<Rightarrow> bool \<Rightarrow> bool \<Rightarrow> bool \<Rightarrow> string \<Rightarrow> bool \<Rightarrow> World \<Rightarrow> unit Outcome \<times> World" where
  "Init r buffer' compress' csv' out' writeChan s =
    (let d = (heap s r)\<lparr>compress := compress', buffer := buffer', csv := csv', out := out'\<rparr>;
         name = LayerType_String (Layer d)
     in
     if csv' then
       (let (f, s1) = CreateFile (filepath_Join out' name)
                        (if compress' then ''.csv.gz'' else ''.csv'') s;
            d = d\<lparr>file' := Some f\<rparr>;
            d = (if buffer' then
                   (let bw = bufio_NewWriterSize (os_File (file' d)) (BlockSize s1);
                        d = d\<lparr>bWriter := Some bw\<rparr>
                    in
                    if compress' then
                      (let gw = gzip_NewWriter bw;
                           d = d\<lparr>gWriter := Some gw\<rparr>
                       in d\<lparr>csvWriter := Some (NewCSVWriter gw)\<rparr>)
                    else d\<lparr>csvWriter := Some (NewCSVWriter bw)\<rparr>)
                 else
                   (if compress' then
                      (let gw = gzip_NewWriter (os_File (file' d));
                           d = d\<lparr>gWriter := Some gw\<rparr>
                       in d\<lparr>csvWriter := Some (NewCSVWriter gw)\<rparr>)
                    else d\<lparr>csvWriter := Some (NewCSVWriter (os_File (file' d)))\<rparr>))
        in (Return (), s1\<lparr>heap := (heap s1)(r := d)\<rparr>))
     else if (writeChan \<and> buffer') \<or> (writeChan \<and> compress') then
       (Panic (PanicString ''buffering or compression cannot be activated when running using writeChan''),
        s\<lparr>heap := (heap s)(r := d)\<rparr>)
     else
       (let (d, s1) =
              (if writeChan then
                 (let (cw, s') = newChanWriter s in (d\<lparr>cWriter := Some cw\<rparr>, s'))
               else
                 (let (f, s') = CreateFile (filepath_Join out' name)
                                  (if compress' then ''.ncap.gz'' else ''.ncap'') s
                  in (d\<lparr>file' := Some f\<rparr>, s')));
            d = (if buffer' then
                   (let bw = bufio_NewWriterSize (os_File (file' d)) (BlockSize s1);
                        d = d\<lparr>bWriter := Some bw\<rparr>
                    in
                    if compress' then
                      (let gw = gzip_NewWriter bw;
                           d = d\<lparr>gWriter := Some gw\<rparr>
                       in d\<lparr>dWriter := Some (delimited_NewWriter gw)\<rparr>)
                    else d\<lparr>dWriter := Some (delimited_NewWriter bw)\<rparr>)
                 else
                   (if compress' then
                      (let gw = gzip_NewWriter (os_File (file' d));
                           d = d\<lparr>gWriter := Some gw\<rparr>
                       in d\<lparr>dWriter := Some (delimited_NewWriter gw)\<rparr>)
                    else
                      (if writeChan then
                         d\<lparr>dWriter := Some (delimited_NewWriter (the (cWriter d)))\<rparr>
                       else d\<lparr>dWriter := Some (delimited_NewWriter (os_File (file' d)))\<rparr>)));
            d = d\<lparr>aWriter := Some (NewAtomicDelimitedWriter (the (dWriter d)))\<rparr>
        in (Return (), s1\<lparr>heap := (heap s1)(r := d)\<rparr>)))"

subsection \<open>InitLayerEncoders: building and registering the chosen encoders\<close>

text \<open>Lines 170 to 181: the header of one encoder; a failed write is a panic.\<close>

definition write_header :: "Config \<Rightarrow> EncoderRef \<Rightarrow> World \<Rightarrow> unit Outcome \<times> World" where
  "write_header c e s =
    (if csv (heap s e) then
       (case WriteHeader (csvWriter (heap s e)) (InitRecord (Type (heap s e))) s of
          (Panic f, s') \<Rightarrow> (Panic f, s')
        | (Return (Some err), s') \<Rightarrow> (Panic (PanicError err), s')
        | (Return None, s') \<Rightarrow> (Return (), s'))
     else
       (case PutProto (aWriter (heap s e)) (NewHeader (Type (heap s e)) c) s of
          (Panic f, s') \<Rightarrow> (Panic f, s')
        | (Return (Some err), s') \<Rightarrow> (Panic (PanicError err), s')
        | (Return None, s') \<Rightarrow> (Return (), s')))"

text \<open>Lines 164 to 184: the loop over the chosen encoders.\<close>

fun init_loop :: "Config \<Rightarrow> EncoderRef list \<Rightarrow> World \<Rightarrow> unit Outcome \<times> World" where
  "init_loop c [] s = (Return (), s)"
| "init_loop c (e # es) s =
    (case Init e (Buffer c) (Compression c) (CSV c) (Out c) (WriteChan c) s of
       (Panic f, s1) \<Rightarrow> (Panic f, s1)
     | (Return u, s1) \<Rightarrow>
         (case write_header c e s1 of
            (Panic f, s2) \<Rightarrow> (Panic f, s2)
          | (Return v, s2) \<Rightarrow>
              init_loop c es (s2\<lparr>LayerEncoders := (LayerEncoders s2)(Layer (heap s2 e) \<mapsto> e)\<rparr>)))"

definition InitLayerEncoders :: "Config \<Rightarrow> World \<Rightarrow> unit Outcome \<times> World" where
  "InitLayerEncoders c s =
    (case resolve c s of
       (Panic f, s1) \<Rightarrow> (Panic f, s1)
     | (Return u, s1) \<Rightarrow> init_loop c (layerEncoderSlice s1) s1)"

subsection \<open>The encoder's public operations\<close>

definition CreateLayerEncoder :: "types_Type \<Rightarrow> LayerType \<Rightarrow> LayerEncoderHandler \<Rightarrow> LayerEncoder" where
  "CreateLayerEncoder nt lt handler =
    \<lparr>Layer = lt, Type = nt, file' = None, bWriter = None, gWriter = None, dWriter = None,
     aWriter = None, Handler = handler, cWriter = None, csvWriter = None,
     compress = False, csv = False, buffer = False, out = []\<rparr>"

text \<open>
  \<open>Encode\<close>; \<open>TimeToString\<close> is the formatting function of the utilities package, taken
  as a parameter.
\<close>

definition Encode ::
  "(time_Time \<Rightarrow> string) \<Rightarrow> EncoderRef \<Rightarrow> gopacket_Layer \<Rightarrow> time_Time \<Rightarrow> World \<Rightarrow> error option Outcome \<times> World" where
  "Encode TimeToString r l timestamp s =
    (let d = heap s r;
         decoded = Handler d l (TimeToString timestamp)
     in
     case decoded of
       None \<Rightarrow> (Return None, s)
     | Some m \<Rightarrow>
         (if csv d then
            (case WriteRecord (csvWriter d) m s of
               (Panic f, s') \<Rightarrow> (Panic f, s')
             | (Return (Some err), s') \<Rightarrow> (Return (Some err), s')
             | (Return None, s') \<Rightarrow> (Return None, s'))
          else
            (case PutProto (aWriter d) m s of
               (Panic f, s') \<Rightarrow> (Panic f, s')
             | (Return (Some err), s') \<Rightarrow> (Return (Some err), s')
             | (Return None, s') \<Rightarrow> (Return None, s'))))"

definition GetChan :: "EncoderRef \<Rightarrow> World \<Rightarrow> Writer option" where
  "GetChan r s = cWriter (heap s r)"

definition Destroy :: "EncoderRef \<Rightarrow> World \<Rightarrow> (string \<times> int) \<times> World" where
  "Destroy r s =
    (let d = heap s r;
         s1 = (if compress d then CloseGzipWriters (gWriter d) s else s);
         s2 = (if buffer d then FlushWriters (bWriter d) s1 else s1)
     in CloseFile (out d) (file' d) (LayerType_String (Layer d)) s2)"

subsection \<open>The spec's reading of the configuration\<close>

text \<open>
  The spec speaks of two sets of names. In the code they arrive as two comma-separated
  strings; the names of such a string are its non-empty pieces.
\<close>

definition names_of :: "string \<Rightarrow> string set" where
  "names_of s = set (filter (\<lambda>n. n \<noteq> []) (strings_Split s))"

definition includeNames :: "Config \<Rightarrow> string set" where
  "includeNames c = names_of (IncludeEncoders c)"

definition excludeNames :: "Config \<Rightarrow> string set" where
  "excludeNames c = names_of (ExcludeEncoders c)"

text \<open>
  The spec's rule for the active set: the whole catalog when no name is included, else
  the catalog entries that are included; then the excluded entries are taken out. The
  catalog's order is kept.
\<close>

definition Resolve_spec ::
  "(EncoderRef \<Rightarrow> string) \<Rightarrow> string set \<Rightarrow> string set \<Rightarrow> EncoderRef list \<Rightarrow> EncoderRef list" where
  "Resolve_spec nm inc exc catalog =
    filter (\<lambda>e. nm e \<notin> exc) (if inc = {} then catalog else filter (\<lambda>e. nm e \<in> inc) catalog)"

text \<open>The header of an encoder, and the writer it goes through, as lines 170 to 181 choose them.\<close>

definition header_payload :: "Config \<Rightarrow> LayerEncoder \<Rightarrow> Payload" where
  "header_payload c d =
    (if csv d then CSVHeaderRow (InitRecord (Type d)) else Frame (NewHeader (Type d) c))"

definition header_writer :: "LayerEncoder \<Rightarrow> Writer option" where
  "header_writer d = (if csv d then csvWriter d else aWriter d)"

fun is_write :: "Event \<Rightarrow> bool" where
  "is_write (Written w p) = True"
| "is_write (WriteFailed w p e) = True"
| "is_write ev = False"

subsection \<open>A world to run the code in\<close>

text \<open>
  Modelled from the spec: the encoder objects are declared in other files of the package.
  Each is taken to carry the layer whose name its variable has, one entry per protocol as
  the spec's data model says, and a handler that has no record for an empty layer.
\<close>

fun catalog_layer :: "EncoderRef \<Rightarrow> LayerType" where
  "catalog_layer TCPEncoder = LayerType 1 ''TCP''"
| "catalog_layer UDPEncoder = LayerType 2 ''UDP''"
| "catalog_layer IPv4Encoder = LayerType 3 ''IPv4''"
| "catalog_layer IPv6Encoder = LayerType 4 ''IPv6''"
| "catalog_layer DHCPv4Encoder = LayerType 5 ''DHCPv4''"
| "catalog_layer DHCPv6Encoder = LayerType 6 ''DHCPv6''"
| "catalog_layer ICMPv4Encoder = LayerType 7 ''ICMPv4''"
| "catalog_layer ICMPv6Encoder = LayerType 8 ''ICMPv6''"
| "catalog_layer ICMPv6EchoEncoder = LayerType 9 ''ICMPv6Echo''"
| "catalog_layer ICMPv6NeighborSolicitationEncoder = LayerType 10 ''ICMPv6NeighborSolicitation''"
| "catalog_layer ICMPv6RouterSolicitationEncoder = LayerType 11 ''ICMPv6RouterSolicitation''"
| "catalog_layer DNSEncoder = LayerType 12 ''DNS''"
| "catalog_layer ARPEncoder = LayerType 13 ''ARP''"
| "catalog_layer EthernetEncoder = LayerType 14 ''Ethernet''"
| "catalog_layer Dot1QEncoder = LayerType 15 ''Dot1Q''"
| "catalog_layer Dot11Encoder = LayerType 16 ''Dot11''"
| "catalog_layer NTPEncoder = LayerType 17 ''NTP''"
| "catalog_layer SIPEncoder = LayerType 18 ''SIP''"
| "catalog_layer IGMPEncoder = LayerType 19 ''IGMP''"
| "catalog_layer LLCEncoder = LayerType 20 ''LLC''"
| "catalog_layer IPv6HopByHopEncoder = LayerType 21 ''IPv6HopByHop''"
| "catalog_layer SCTPEncoder = LayerType 22 ''SCTP''"
| "catalog_layer SNAPEncoder = LayerType 23 ''SNAP''"
| "catalog_layer LinkLayerDiscoveryEncoder = LayerType 24 ''LinkLayerDiscovery''"
| "catalog_layer ICMPv6NeighborAdvertisementEncoder = LayerType 25 ''ICMPv6NeighborAdvertisement''"
| "catalog_layer ICMPv6RouterAdvertisementEncoder = LayerType 26 ''ICMPv6RouterAdvertisement''"
| "catalog_layer EthernetCTPEncoder = LayerType 27 ''EthernetCTP''"
| "catalog_layer EthernetCTPReplyEncoder = LayerType 28 ''EthernetCTPReply''"
| "catalog_layer LinkLayerDiscoveryInfoEncoder = LayerType 29 ''LinkLayerDiscoveryInfo''"
| "catalog_layer (Allocated n) = LayerType (1000 + int n) []"

definition sample_handler :: LayerEncoderHandler where
  "sample_handler l ts = (if l = [] then None else Some (Record ts))"

definition initial_world :: World where
  "initial_world =
    \<lparr>layerEncoderSlice = layerEncoderSlice_initial,
     LayerEncoders = Map.empty,
     heap = (\<lambda>r. CreateLayerEncoder 0 (catalog_layer r) sample_handler),
     allEncoderNames = set (map (\<lambda>r. LayerType_String (catalog_layer r)) layerEncoderSlice_initial),
     BlockSize = 4096,
     chans = 0,
     wr_outcomes = [],
     stat = (\<lambda>f. ([], 0)),
     trace = []\<rparr>"

definition sample_config :: Config where
  "sample_config =
    \<lparr>IncludeEncoders = [], ExcludeEncoders = [], Buffer = False, Compression = False,
     CSV = False, Out = ''out'', WriteChan = False\<rparr>"

text \<open>
  The one combination of flags that \<open>Init\<close> refuses (line 263), negated: binary output
  into a channel together with buffering or compression.
\<close>

definition no_live_conflict :: "Config \<Rightarrow> bool" where
  "no_live_conflict c = (\<not> (\<not> CSV c \<and> WriteChan c \<and> (Buffer c \<or> Compression c)))"

text \<open>
  The stack \<open>Init\<close> puts on a raw sink: the buffer when buffering is on, then the
  compressor when compression is on.
\<close>

definition writer_base :: "bool \<Rightarrow> bool \<Rightarrow> int \<Rightarrow> Writer \<Rightarrow> Writer" where
  "writer_base b cm n raw =
     (let buffered = (if b then bufio_NewWriterSize raw n else raw)
      in if cm then gzip_NewWriter buffered else buffered)"

text \<open>Configurations and worlds for the concrete runs below.\<close>

definition failing_world :: World where
  "failing_world =
     (snd (Init TCPEncoder False False False ''out'' False initial_world))
       \<lparr>wr_outcomes := [Some (IOError ''disk full'')]\<rparr>"

definition cfg_include_exclude :: Config where
  "cfg_include_exclude = sample_config\<lparr>IncludeEncoders := ''TCP,DNS,UDP'', ExcludeEncoders := ''UDP''\<rparr>"

definition cfg_leading_comma :: Config where
  "cfg_leading_comma = sample_config\<lparr>IncludeEncoders := '',TCP''\<rparr>"

definition cfg_unknown :: Config where
  "cfg_unknown = sample_config\<lparr>IncludeEncoders := ''TCP,BOGUS''\<rparr>"

definition cfg_unknown_skipped :: Config where
  "cfg_unknown_skipped = sample_config\<lparr>IncludeEncoders := '',BOGUS''\<rparr>"

definition cfg_exclude_tcp :: Config where
  "cfg_exclude_tcp = sample_config\<lparr>ExcludeEncoders := ''TCP''\<rparr>"

definition cfg_include_tcp :: Config where
  "cfg_include_tcp = sample_config\<lparr>IncludeEncoders := ''TCP''\<rparr>"

definition cfg_two :: Config where
  "cfg_two = sample_config\<lparr>IncludeEncoders := ''TCP,DNS''\<rparr>"

definition header_fail_world :: World where
  "header_fail_world = initial_world\<lparr>wr_outcomes := [None, Some (IOError ''disk full'')]\<rparr>"

section \<open>Properties\<close>

lemma strings_Split_nonempty: "strings_Split s \<noteq> []"
  by (induction s) auto

subsection \<open>Init\<close>

lemma Init_outcome:
  "fst (Init r b cm cs ou wc s) =
     (if \<not> cs \<and> wc \<and> (b \<or> cm)
      then Panic (PanicString ''buffering or compression cannot be activated when running using writeChan'')
      else Return ())"
  by (simp add: Init_def Let_def CreateFile_def newChanWriter_def split: prod.splits)

lemma Init_frame:
  "layerEncoderSlice (snd (Init r b cm cs ou wc s)) = layerEncoderSlice s"
  "LayerEncoders (snd (Init r b cm cs ou wc s)) = LayerEncoders s"
  "allEncoderNames (snd (Init r b cm cs ou wc s)) = allEncoderNames s"
  "wr_outcomes (snd (Init r b cm cs ou wc s)) = wr_outcomes s"
  by (simp_all add: Init_def Let_def CreateFile_def newChanWriter_def split: prod.splits)

lemma Init_heap_other:
  "e \<noteq> r \<Longrightarrow> heap (snd (Init r b cm cs ou wc s)) e = heap s e"
  by (simp add: Init_def Let_def CreateFile_def newChanWriter_def split: prod.splits)

lemma Init_heap_fields:
  "Layer (heap (snd (Init r b cm cs ou wc s)) e) = Layer (heap s e)"
  "Type (heap (snd (Init r b cm cs ou wc s)) e) = Type (heap s e)"
  "Handler (heap (snd (Init r b cm cs ou wc s)) e) = Handler (heap s e)"
  by (simp_all add: Init_def Let_def CreateFile_def newChanWriter_def split: prod.splits)

lemma Init_csv_flag:
  "csv (heap (snd (Init r b cm cs ou wc s)) r) = cs"
  by (simp add: Init_def Let_def CreateFile_def newChanWriter_def split: prod.splits)

lemma Init_writer:
  "fst (Init r b cm cs ou wc s) = Return () \<Longrightarrow>
   \<exists>w. header_writer (heap (snd (Init r b cm cs ou wc s)) r) = Some w"
  by (simp add: Init_def header_writer_def Let_def CreateFile_def newChanWriter_def split: prod.splits if_splits)

lemma Init_trace:
  "trace (snd (Init r b cm cs ou wc s)) =
     trace s @ (if cs then [FileCreated (File (filepath_Join ou (layer_name s r)) (if cm then ''.csv.gz'' else ''.csv''))]
                else if wc then []
                else [FileCreated (File (filepath_Join ou (layer_name s r)) (if cm then ''.ncap.gz'' else ''.ncap''))])"
  by (simp add: Init_def layer_name_def Let_def CreateFile_def newChanWriter_def split: prod.splits)

lemma Init_trace_writes:
  "\<exists>evs. trace (snd (Init r b cm cs ou wc s)) = trace s @ evs \<and> filter is_write evs = []"
  by (simp add: Init_trace)

lemma Init_file_field:
  "cs \<or> \<not> wc \<Longrightarrow> file' (heap (snd (Init r b cm cs ou wc s)) r) =
     Some (File (filepath_Join ou (layer_name s r))
        (if cs then (if cm then ''.csv.gz'' else ''.csv'') else (if cm then ''.ncap.gz'' else ''.ncap'')))"
  by (auto simp add: Init_def layer_name_def Let_def CreateFile_def newChanWriter_def split: prod.splits)

subsection \<open>The header write\<close>

lemma write_header_eq:
  assumes "header_writer (heap s e) = Some w"
  shows "write_header c e s =
    (case wr_outcomes s of
       [] \<Rightarrow> (Return (), s\<lparr>trace := trace s @ [Written w (header_payload c (heap s e))]\<rparr>)
     | None # os \<Rightarrow> (Return (), s\<lparr>wr_outcomes := os, trace := trace s @ [Written w (header_payload c (heap s e))]\<rparr>)
     | Some err # os \<Rightarrow> (Panic (PanicError err),
          s\<lparr>wr_outcomes := os, trace := trace s @ [WriteFailed w (header_payload c (heap s e)) err]\<rparr>))"
  using assms
  by (auto simp add: write_header_def header_writer_def header_payload_def WriteHeader_def PutProto_def
      writer_call_def sink_write_def split: list.splits option.splits if_splits)

lemma write_header_frame:
  "layerEncoderSlice (snd (write_header c e s)) = layerEncoderSlice s"
  "LayerEncoders (snd (write_header c e s)) = LayerEncoders s"
  "allEncoderNames (snd (write_header c e s)) = allEncoderNames s"
  "heap (snd (write_header c e s)) = heap s"
  by (auto simp add: write_header_def WriteHeader_def PutProto_def
      writer_call_def sink_write_def split: list.splits option.splits if_splits)

subsection \<open>Choosing the encoders\<close>

lemma include_loop_ok:
  "\<forall>n\<in>set ins. n \<noteq> [] \<longrightarrow> n \<in> names \<Longrightarrow>
   \<exists>m'. include_loop names ins m = Inr m' \<and> dom m' = dom m \<union> set (filter (\<lambda>n. n \<noteq> []) ins)"
proof (induction ins arbitrary: m)
  case Nil
  then show ?case by simp
next
  case (Cons name rest)
  have r: "\<forall>n\<in>set rest. n \<noteq> [] \<longrightarrow> n \<in> names" using Cons.prems by simp
  show ?case
  proof (cases "name = []")
    case True
    from Cons.IH [OF r, of m] True show ?thesis by simp
  next
    case False
    with Cons.prems have "name \<in> names" by simp
    from Cons.IH [OF r] obtain m' where
      a: "include_loop names rest (m(name \<mapsto> True)) = Inr m'" and
      b: "dom m' = dom (m(name \<mapsto> True)) \<union> set (filter (\<lambda>n. n \<noteq> []) rest)"
      by blast
    have "include_loop names (name # rest) m = Inr m'"
      using False \<open>name \<in> names\<close> a by simp
    moreover have "dom m' = dom m \<union> set (filter (\<lambda>n. n \<noteq> []) (name # rest))"
      using b False by auto
    ultimately show ?thesis by blast
  qed
qed

lemma include_loop_fail:
  "\<exists>n\<in>set ins. n \<noteq> [] \<and> n \<notin> names \<Longrightarrow>
   \<exists>n. n \<in> set ins \<and> n \<noteq> [] \<and> n \<notin> names \<and> include_loop names ins m = Inl (InvalidProto n)"
proof (induction ins arbitrary: m)
  case Nil
  then show ?case by simp
next
  case (Cons name rest)
  show ?case
  proof (cases "name \<noteq> [] \<and> name \<notin> names")
    case True
    then show ?thesis by (auto simp add: invalidProto_def)
  next
    case False
    with Cons.prems have "\<exists>n\<in>set rest. n \<noteq> [] \<and> n \<notin> names" by auto
    from Cons.IH [OF this] False show ?thesis by auto
  qed
qed

lemma selection_loop_eq:
  "selection_loop nm inMap es sel = sel @ filter (\<lambda>e. nm e \<in> dom inMap) es"
  by (induction es arbitrary: sel) auto

subsection \<open>The exclude loop\<close>

lemma first_index_Suc:
  "first_index nm name es (Suc i) = map_option Suc (first_index nm name es i)"
  by (induction es arbitrary: i) auto

lemma remove_encoder_Nil: "remove_encoder nm name [] = []"
  by (simp add: remove_encoder_def)

lemma remove_encoder_Cons:
  "remove_encoder nm name (e # es) =
     (if name = nm e then es else e # remove_encoder nm name es)"
  by (auto simp add: remove_encoder_def first_index_Suc [of nm name es 0] split: option.splits)

lemma remove_encoder_distinct:
  "distinct (map nm es) \<Longrightarrow> remove_encoder nm name es = filter (\<lambda>e. nm e \<noteq> name) es"
proof (induction es)
  case Nil
  then show ?case by (simp add: remove_encoder_Nil)
next
  case (Cons e es)
  show ?case
  proof (cases "name = nm e")
    case True
    from Cons.prems have "nm e \<notin> nm ` set es" by simp
    with True have "\<forall>x\<in>set es. nm x \<noteq> name" by (auto simp add: image_iff)
    then have "filter (\<lambda>e. nm e \<noteq> name) es = es" by (simp add: filter_id_conv)
    with True show ?thesis by (simp add: remove_encoder_Cons)
  next
    case False
    with Cons show ?thesis by (auto simp add: remove_encoder_Cons)
  qed
qed

lemma exclude_loop_ok:
  "\<forall>n\<in>set exs. n \<noteq> [] \<longrightarrow> n \<in> names \<Longrightarrow> distinct (map nm sl) \<Longrightarrow>
   exclude_loop names nm exs sl = (None, filter (\<lambda>e. nm e \<notin> set (filter (\<lambda>n. n \<noteq> []) exs)) sl)"
proof (induction exs arbitrary: sl)
  case Nil
  then show ?case by simp
next
  case (Cons name rest)
  show ?case
  proof (cases "name = []")
    case True
    with Cons show ?thesis by simp
  next
    case False
    with Cons.prems have inn: "name \<in> names" by simp
    have d: "distinct (map nm (filter (\<lambda>e. nm e \<noteq> name) sl))"
      using Cons.prems(2) by (simp add: distinct_map_filter)
    have "exclude_loop names nm (name # rest) sl =
          exclude_loop names nm rest (filter (\<lambda>e. nm e \<noteq> name) sl)"
      using False inn Cons.prems(2) by (simp add: remove_encoder_distinct)
    also have "\<dots> = (None, filter (\<lambda>e. nm e \<notin> set (filter (\<lambda>n. n \<noteq> []) rest)) (filter (\<lambda>e. nm e \<noteq> name) sl))"
      using Cons.IH [OF _ d] Cons.prems(1) by simp
    also have "filter (\<lambda>e. nm e \<notin> set (filter (\<lambda>n. n \<noteq> []) rest)) (filter (\<lambda>e. nm e \<noteq> name) sl)
        = filter (\<lambda>e. nm e \<notin> set (filter (\<lambda>n. n \<noteq> []) (name # rest))) sl"
      using False by (auto intro: filter_cong)
    finally show ?thesis .
  qed
qed

lemma exclude_loop_fail:
  "\<exists>n\<in>set exs. n \<noteq> [] \<and> n \<notin> names \<Longrightarrow>
   \<exists>n sl'. n \<in> set exs \<and> n \<noteq> [] \<and> n \<notin> names \<and> exclude_loop names nm exs sl = (Some (InvalidProto n), sl')"
proof (induction exs arbitrary: sl)
  case Nil
  then show ?case by simp
next
  case (Cons name rest)
  show ?case
  proof (cases "name \<noteq> [] \<and> name \<notin> names")
    case True
    then show ?thesis by (auto simp add: invalidProto_def)
  next
    case False
    with Cons.prems have ex: "\<exists>n\<in>set rest. n \<noteq> [] \<and> n \<notin> names" by auto
    show ?thesis
    proof (cases "name = []")
      case True
      with Cons.IH [OF ex, of sl] show ?thesis by auto
    next
      case ne: False
      with False have "name \<in> names" by simp
      with ne Cons.IH [OF ex, of "remove_encoder nm name sl"] show ?thesis by auto
    qed
  qed
qed

subsection \<open>The whole selection\<close>

lemma resolve_slice_unfold:
  "resolve_slice names nm c slice =
    (if hd (strings_Split (IncludeEncoders c)) \<noteq> [] then
       (case include_loop names (strings_Split (IncludeEncoders c)) Map.empty of
          Inl f \<Rightarrow> (Some f, slice)
        | Inr inMap \<Rightarrow>
            exclude_loop names nm (strings_Split (ExcludeEncoders c))
              (filter (\<lambda>e. nm e \<in> dom inMap) slice))
     else exclude_loop names nm (strings_Split (ExcludeEncoders c)) slice)"
proof -
  have "strings_Split (IncludeEncoders c) ! 0 = hd (strings_Split (IncludeEncoders c))"
    using strings_Split_nonempty [of "IncludeEncoders c"] by (simp add: hd_conv_nth)
  then show ?thesis
    using strings_Split_nonempty [of "IncludeEncoders c"]
    by (simp add: resolve_slice_def Let_def selection_loop_eq split: sum.splits)
qed

lemma resolve_slice_eq:
  assumes vex: "\<forall>n\<in>excludeNames c. n \<in> names"
    and vin: "hd (strings_Split (IncludeEncoders c)) \<noteq> [] \<longrightarrow> (\<forall>n\<in>includeNames c. n \<in> names)"
    and dist: "distinct (map nm slice)"
  shows "resolve_slice names nm c slice =
           (None, filter (\<lambda>e. nm e \<notin> excludeNames c)
              (if hd (strings_Split (IncludeEncoders c)) \<noteq> []
               then filter (\<lambda>e. nm e \<in> includeNames c) slice else slice))"
proof -
  let ?ins = "strings_Split (IncludeEncoders c)"
  let ?exs = "strings_Split (ExcludeEncoders c)"
  have exn: "excludeNames c = set (filter (\<lambda>n. n \<noteq> []) ?exs)"
    by (simp only: excludeNames_def names_of_def)
  have inn: "includeNames c = set (filter (\<lambda>n. n \<noteq> []) ?ins)"
    by (simp only: includeNames_def names_of_def)
  have vex': "\<forall>n\<in>set ?exs. n \<noteq> [] \<longrightarrow> n \<in> names" using vex exn by auto
  have ex_ok: "exclude_loop names nm ?exs sl = (None, filter (\<lambda>e. nm e \<notin> excludeNames c) sl)"
    if "distinct (map nm sl)" for sl
    unfolding exn by (rule exclude_loop_ok [OF vex' that])
  show ?thesis
  proof (cases "hd ?ins \<noteq> []")
    case True
    with vin have vin': "\<forall>n\<in>set ?ins. n \<noteq> [] \<longrightarrow> n \<in> names" using inn by auto
    from include_loop_ok [OF vin', of Map.empty] obtain m' where
      m': "include_loop names ?ins Map.empty = Inr m'" and "dom m' = dom Map.empty \<union> set (filter (\<lambda>n. n \<noteq> []) ?ins)"
      by blast
    then have dm: "dom m' = includeNames c" unfolding inn by simp
    have d2: "distinct (map nm (filter (\<lambda>e. nm e \<in> includeNames c) slice))"
      using dist by (simp add: distinct_map_filter)
    have "resolve_slice names nm c slice =
          exclude_loop names nm ?exs (filter (\<lambda>e. nm e \<in> includeNames c) slice)"
      using True m' dm by (simp add: resolve_slice_unfold)
    also have "\<dots> = (None, filter (\<lambda>e. nm e \<notin> excludeNames c) (filter (\<lambda>e. nm e \<in> includeNames c) slice))"
      by (rule ex_ok [OF d2])
    finally show ?thesis using True by simp
  next
    case False
    have "resolve_slice names nm c slice = exclude_loop names nm ?exs slice"
      using False by (simp add: resolve_slice_unfold)
    also have "\<dots> = (None, filter (\<lambda>e. nm e \<notin> excludeNames c) slice)"
      by (rule ex_ok [OF dist])
    finally show ?thesis using False by simp
  qed
qed

lemma resolve_slice_ok:
  assumes valid: "\<forall>n\<in>includeNames c \<union> excludeNames c. n \<in> names"
    and dist: "distinct (map nm slice)"
    and guard: "hd (strings_Split (IncludeEncoders c)) \<noteq> [] \<or> includeNames c = {}"
  shows "resolve_slice names nm c slice =
           (None, Resolve_spec nm (includeNames c) (excludeNames c) slice)"
proof -
  have vex: "\<forall>n\<in>excludeNames c. n \<in> names" using valid by simp
  have vin: "hd (strings_Split (IncludeEncoders c)) \<noteq> [] \<longrightarrow> (\<forall>n\<in>includeNames c. n \<in> names)"
    using valid by simp
  have "hd (strings_Split (IncludeEncoders c)) \<in> set (strings_Split (IncludeEncoders c))"
    using strings_Split_nonempty by simp
  then have "hd (strings_Split (IncludeEncoders c)) \<noteq> [] \<Longrightarrow> includeNames c \<noteq> {}"
    by (auto simp add: includeNames_def names_of_def)
  with guard have "(hd (strings_Split (IncludeEncoders c)) \<noteq> []) = (includeNames c \<noteq> {})"
    by blast
  then show ?thesis
    using resolve_slice_eq [OF vex vin dist] by (simp add: Resolve_spec_def)
qed

lemma resolve_slice_fail:
  assumes "(hd (strings_Split (IncludeEncoders c)) \<noteq> [] \<and> (\<exists>n\<in>includeNames c. n \<notin> names))
           \<or> (\<exists>n\<in>excludeNames c. n \<notin> names)"
  shows "\<exists>n sl'. n \<in> includeNames c \<union> excludeNames c \<and> n \<notin> names
            \<and> resolve_slice names nm c slice = (Some (InvalidProto n), sl')"
proof -
  let ?ins = "strings_Split (IncludeEncoders c)"
  let ?exs = "strings_Split (ExcludeEncoders c)"
  have exn: "excludeNames c = {n \<in> set ?exs. n \<noteq> []}"
    by (auto simp add: excludeNames_def names_of_def)
  have inn: "includeNames c = {n \<in> set ?ins. n \<noteq> []}"
    by (auto simp add: includeNames_def names_of_def)
  have ex_fail: "\<exists>n sl'. n \<in> excludeNames c \<and> n \<notin> names
        \<and> exclude_loop names nm ?exs sl = (Some (InvalidProto n), sl')"
    if "\<exists>n\<in>excludeNames c. n \<notin> names" for sl
  proof -
    from that have "\<exists>n\<in>set ?exs. n \<noteq> [] \<and> n \<notin> names" using exn by auto
    from exclude_loop_fail [OF this, of nm sl] show ?thesis using exn by blast
  qed
  show ?thesis
  proof (cases "hd ?ins \<noteq> []")
    case True
    show ?thesis
    proof (cases "\<exists>n\<in>includeNames c. n \<notin> names")
      case bad: True
      then have "\<exists>n\<in>set ?ins. n \<noteq> [] \<and> n \<notin> names" using inn by auto
      from include_loop_fail [OF this, of Map.empty] obtain n where
        n: "n \<in> set ?ins" "n \<noteq> []" "n \<notin> names" "include_loop names ?ins Map.empty = Inl (InvalidProto n)"
        by auto
      from n(1,2) have "n \<in> includeNames c" using inn by simp
      moreover have "resolve_slice names nm c slice = (Some (InvalidProto n), slice)"
        using True n(4) by (simp add: resolve_slice_unfold)
      ultimately show ?thesis using n(3) by blast
    next
      case False
      with assms have bad: "\<exists>n\<in>excludeNames c. n \<notin> names" by blast
      from False have "\<forall>n\<in>set ?ins. n \<noteq> [] \<longrightarrow> n \<in> names" using inn by auto
      from include_loop_ok [OF this, of Map.empty] obtain m' where
        m': "include_loop names ?ins Map.empty = Inr m'" by auto
      have rs: "resolve_slice names nm c slice =
          exclude_loop names nm ?exs (filter (\<lambda>e. nm e \<in> dom m') slice)"
        using True m' by (simp add: resolve_slice_unfold)
      from ex_fail [OF bad, of "filter (\<lambda>e. nm e \<in> dom m') slice"] rs
      show ?thesis by auto
    qed
  next
    case False
    with assms have bad: "\<exists>n\<in>excludeNames c. n \<notin> names" by blast
    have rs: "resolve_slice names nm c slice = exclude_loop names nm ?exs slice"
      using False by (simp add: resolve_slice_unfold)
    from ex_fail [OF bad, of slice] rs show ?thesis by auto
  qed
qed

subsection \<open>The loop over the chosen encoders\<close>

lemma init_loop_frame:
  "layerEncoderSlice (snd (init_loop c es s)) = layerEncoderSlice s
   \<and> allEncoderNames (snd (init_loop c es s)) = allEncoderNames s
   \<and> (\<forall>e. Layer (heap (snd (init_loop c es s)) e) = Layer (heap s e))"
proof (induction es arbitrary: s)
  case Nil
  then show ?case by simp
next
  case (Cons e es)
  obtain o1 s1 where i: "Init e (Buffer c) (Compression c) (CSV c) (Out c) (WriteChan c) s = (o1, s1)"
    by (cases "Init e (Buffer c) (Compression c) (CSV c) (Out c) (WriteChan c) s")
  have f1: "layerEncoderSlice s1 = layerEncoderSlice s" "allEncoderNames s1 = allEncoderNames s"
    "\<And>x. Layer (heap s1 x) = Layer (heap s x)"
    using Init_frame(1,3) [of e "Buffer c" "Compression c" "CSV c" "Out c" "WriteChan c" s]
      Init_heap_fields(1) [of e "Buffer c" "Compression c" "CSV c" "Out c" "WriteChan c" s]
    by (simp_all add: i)
  obtain o2 s2 where w: "write_header c e s1 = (o2, s2)" by (cases "write_header c e s1")
  have f2: "layerEncoderSlice s2 = layerEncoderSlice s" "allEncoderNames s2 = allEncoderNames s"
    "\<And>x. Layer (heap s2 x) = Layer (heap s x)"
    using write_header_frame(1,3,4) [of c e s1] f1 by (simp_all add: w)
  show ?case
  proof (cases o1)
    case (Panic f)
    then show ?thesis using i f1 by simp
  next
    case (Return u)
    show ?thesis
    proof (cases o2)
      case (Panic f)
      then show ?thesis using i w Return f2 by simp
    next
      case r2: (Return v)
      let ?s3 = "s2\<lparr>LayerEncoders := (LayerEncoders s2)(Layer (heap s2 e) \<mapsto> e)\<rparr>"
      have "init_loop c (e # es) s = init_loop c es ?s3"
        using i w Return r2 by simp
      then show ?thesis using Cons.IH [of ?s3] f2 by simp
    qed
  qed
qed

lemma init_loop_succeeds:
  "no_live_conflict c \<Longrightarrow> wr_outcomes s = [] \<Longrightarrow> fst (init_loop c es s) = Return ()"
proof (induction es arbitrary: s)
  case Nil
  then show ?case by simp
next
  case (Cons e es)
  obtain o1 s1 where i: "Init e (Buffer c) (Compression c) (CSV c) (Out c) (WriteChan c) s = (o1, s1)"
    by (cases "Init e (Buffer c) (Compression c) (CSV c) (Out c) (WriteChan c) s")
  have o1: "o1 = Return ()"
    using Init_outcome [of e "Buffer c" "Compression c" "CSV c" "Out c" "WriteChan c" s] Cons.prems(1)
    by (auto simp add: i no_live_conflict_def)
  have w1: "wr_outcomes s1 = []"
    using Init_frame(4) [of e "Buffer c" "Compression c" "CSV c" "Out c" "WriteChan c" s] Cons.prems(2)
    by (simp add: i)
  from Init_writer [of e "Buffer c" "Compression c" "CSV c" "Out c" "WriteChan c" s] i o1
  obtain w where hw: "header_writer (heap s1 e) = Some w" by auto
  let ?s2 = "s1\<lparr>trace := trace s1 @ [Written w (header_payload c (heap s1 e))]\<rparr>"
  have wh: "write_header c e s1 = (Return (), ?s2)"
    using write_header_eq [OF hw, of c] w1 by simp
  let ?s3 = "?s2\<lparr>LayerEncoders := (LayerEncoders ?s2)(Layer (heap ?s2 e) \<mapsto> e)\<rparr>"
  have "init_loop c (e # es) s = init_loop c es ?s3"
    using i o1 wh by simp
  moreover have "wr_outcomes ?s3 = []" using w1 by simp
  ultimately show ?case using Cons.IH [OF Cons.prems(1), of ?s3] by simp
qed

lemma init_loop_heap_other:
  "e \<notin> set es \<Longrightarrow> heap (snd (init_loop c es s)) e = heap s e"
proof (induction es arbitrary: s)
  case Nil
  then show ?case by simp
next
  case (Cons x es)
  obtain o1 s1 where i: "Init x (Buffer c) (Compression c) (CSV c) (Out c) (WriteChan c) s = (o1, s1)"
    by (cases "Init x (Buffer c) (Compression c) (CSV c) (Out c) (WriteChan c) s")
  from Cons.prems have ne: "e \<noteq> x" and nin: "e \<notin> set es" by auto
  have h1: "heap s1 e = heap s e"
    using Init_heap_other [OF ne, of "Buffer c" "Compression c" "CSV c" "Out c" "WriteChan c" s]
    by (simp add: i)
  obtain o2 s2 where w: "write_header c x s1 = (o2, s2)" by (cases "write_header c x s1")
  have h2: "heap s2 = heap s1" using write_header_frame(4) [of c x s1] by (simp add: w)
  show ?case
  proof (cases o1)
    case (Panic f)
    then show ?thesis using i h1 by simp
  next
    case (Return u)
    show ?thesis
    proof (cases o2)
      case (Panic f)
      then show ?thesis using i w Return h1 h2 by simp
    next
      case r2: (Return v)
      let ?s3 = "s2\<lparr>LayerEncoders := (LayerEncoders s2)(Layer (heap s2 x) \<mapsto> x)\<rparr>"
      have "init_loop c (x # es) s = init_loop c es ?s3"
        using i w Return r2 by simp
      then show ?thesis using Cons.IH [OF nin, of ?s3] h1 h2 by simp
    qed
  qed
qed

lemma init_loop_header_failure:
  "no_live_conflict c \<Longrightarrow> wr_outcomes s = replicate k None @ Some err # rest \<Longrightarrow> k < length es \<Longrightarrow>
   fst (init_loop c es s) = Panic (PanicError err)"
proof (induction es arbitrary: s k)
  case Nil
  then show ?case by simp
next
  case (Cons e es)
  obtain o1 s1 where i: "Init e (Buffer c) (Compression c) (CSV c) (Out c) (WriteChan c) s = (o1, s1)"
    by (cases "Init e (Buffer c) (Compression c) (CSV c) (Out c) (WriteChan c) s")
  have o1: "o1 = Return ()"
    using Init_outcome [of e "Buffer c" "Compression c" "CSV c" "Out c" "WriteChan c" s] Cons.prems(1)
    by (auto simp add: i no_live_conflict_def)
  have w1: "wr_outcomes s1 = replicate k None @ Some err # rest"
    using Init_frame(4) [of e "Buffer c" "Compression c" "CSV c" "Out c" "WriteChan c" s] Cons.prems(2)
    by (simp add: i)
  from Init_writer [of e "Buffer c" "Compression c" "CSV c" "Out c" "WriteChan c" s] i o1
  obtain w where hw: "header_writer (heap s1 e) = Some w" by auto
  show ?case
  proof (cases k)
    case 0
    then have "fst (write_header c e s1) = Panic (PanicError err)"
      using write_header_eq [OF hw, of c] w1 by simp
    then show ?thesis using i o1 by (auto split: prod.splits Outcome.splits)
  next
    case (Suc k')
    let ?s2 = "s1\<lparr>wr_outcomes := replicate k' None @ Some err # rest,
                  trace := trace s1 @ [Written w (header_payload c (heap s1 e))]\<rparr>"
    have wh: "write_header c e s1 = (Return (), ?s2)"
      using write_header_eq [OF hw, of c] w1 Suc by simp
    let ?s3 = "?s2\<lparr>LayerEncoders := (LayerEncoders ?s2)(Layer (heap ?s2 e) \<mapsto> e)\<rparr>"
    have "init_loop c (e # es) s = init_loop c es ?s3"
      using i o1 wh by simp
    moreover have "wr_outcomes ?s3 = replicate k' None @ Some err # rest" by simp
    moreover have "k' < length es" using Cons.prems(3) Suc by simp
    ultimately show ?thesis using Cons.IH [OF Cons.prems(1), of ?s3 k'] by simp
  qed
qed

subsection \<open>InitLayerEncoders as a whole\<close>

lemma remove_encoder_subseq: "subseq (remove_encoder nm name sl) sl"
  by (induction sl) (auto simp add: remove_encoder_Nil remove_encoder_Cons)

lemma exclude_loop_subseq: "subseq (snd (exclude_loop names nm exs sl)) sl"
proof (induction exs arbitrary: sl)
  case Nil
  then show ?case by simp
next
  case (Cons name rest)
  have "subseq (snd (exclude_loop names nm rest (remove_encoder nm name sl))) sl"
    using Cons.IH [of "remove_encoder nm name sl"] remove_encoder_subseq [of nm name sl]
    by (rule subseq_order.trans)
  with Cons.IH [of sl] show ?case by simp
qed

lemma resolve_slice_subseq: "subseq (snd (resolve_slice names nm c sl)) sl"
proof -
  have "subseq (snd (exclude_loop names nm exs (filter P sl))) sl" for exs P
    using exclude_loop_subseq [of names nm exs "filter P sl"] subseq_filter_left [of P sl]
    by (rule subseq_order.trans)
  then show ?thesis
    by (auto simp add: resolve_slice_unfold exclude_loop_subseq split: sum.splits)
qed

lemma InitLayerEncoders_fatal:
  "fst (resolve_slice (allEncoderNames s) (layer_name s) c (layerEncoderSlice s)) = Some f \<Longrightarrow>
   InitLayerEncoders c s =
     (Panic f, s\<lparr>layerEncoderSlice := snd (resolve_slice (allEncoderNames s) (layer_name s) c (layerEncoderSlice s))\<rparr>)"
  by (cases "resolve_slice (allEncoderNames s) (layer_name s) c (layerEncoderSlice s)")
     (simp add: InitLayerEncoders_def resolve_def)

lemma InitLayerEncoders_chosen:
  "fst (resolve_slice (allEncoderNames s) (layer_name s) c (layerEncoderSlice s)) = None \<Longrightarrow>
   InitLayerEncoders c s =
     init_loop c (snd (resolve_slice (allEncoderNames s) (layer_name s) c (layerEncoderSlice s)))
       (s\<lparr>layerEncoderSlice := snd (resolve_slice (allEncoderNames s) (layer_name s) c (layerEncoderSlice s))\<rparr>)"
  by (cases "resolve_slice (allEncoderNames s) (layer_name s) c (layerEncoderSlice s)")
     (simp add: InitLayerEncoders_def resolve_def)

lemma InitLayerEncoders_slice:
  "layerEncoderSlice (snd (InitLayerEncoders c s)) =
     snd (resolve_slice (allEncoderNames s) (layer_name s) c (layerEncoderSlice s))"
proof (cases "fst (resolve_slice (allEncoderNames s) (layer_name s) c (layerEncoderSlice s))")
  case None
  then show ?thesis by (simp add: InitLayerEncoders_chosen init_loop_frame)
next
  case (Some f)
  then show ?thesis by (simp add: InitLayerEncoders_fatal)
qed

lemma InitLayerEncoders_names:
  "allEncoderNames (snd (InitLayerEncoders c s)) = allEncoderNames s"
  "layer_name (snd (InitLayerEncoders c s)) = layer_name s"
proof -
  show "allEncoderNames (snd (InitLayerEncoders c s)) = allEncoderNames s"
    by (cases "fst (resolve_slice (allEncoderNames s) (layer_name s) c (layerEncoderSlice s))")
       (simp_all add: InitLayerEncoders_chosen InitLayerEncoders_fatal init_loop_frame)
  have "Layer (heap (snd (InitLayerEncoders c s)) e) = Layer (heap s e)" for e
    by (cases "fst (resolve_slice (allEncoderNames s) (layer_name s) c (layerEncoderSlice s))")
       (simp_all add: InitLayerEncoders_chosen InitLayerEncoders_fatal init_loop_frame)
  then show "layer_name (snd (InitLayerEncoders c s)) = layer_name s"
    by (simp add: layer_name_def fun_eq_iff)
qed

subsection \<open>The sample world\<close>

lemma initial_layer_name: "layer_name initial_world e = LayerType_String (catalog_layer e)"
  by (simp add: layer_name_def initial_world_def CreateLayerEncoder_def)

lemma initial_slice: "layerEncoderSlice initial_world = layerEncoderSlice_initial"
  by (simp add: initial_world_def)

lemma initial_names:
  "allEncoderNames initial_world = set (map (\<lambda>r. LayerType_String (catalog_layer r)) layerEncoderSlice_initial)"
  by (simp add: initial_world_def)

lemma initial_distinct:
  "distinct (map (layer_name initial_world) (layerEncoderSlice initial_world))"
  by (simp add: initial_layer_name initial_slice layerEncoderSlice_initial_def)

lemma initial_distinct_refs: "distinct (layerEncoderSlice initial_world)"
  by (simp add: initial_slice layerEncoderSlice_initial_def)

subsection \<open>Encode, Destroy and Init\<close>

text \<open>
  C6. When the handler has no record for the layer, \<open>Encode\<close> returns no error and
  leaves the world as it was: no write is attempted.
\<close>

theorem Encode_not_applicable:
  assumes "Handler (heap s r) l (TimeToString t) = None"
  shows "Encode TimeToString r l t s = (Return None, s)"
  using assms by (simp add: Encode_def)

text \<open>The sample handler has no record for an empty layer.\<close>

theorem Encode_not_applicable_witness:
  "Handler (heap initial_world TCPEncoder) [] ((\<lambda>t. ''1.000000'') 0) = None
   \<and> Encode (\<lambda>t. ''1.000000'') TCPEncoder [] 0 initial_world = (Return None, initial_world)"
proof -
  have h: "Handler (heap initial_world TCPEncoder) [] ((\<lambda>t. ''1.000000'') 0) = None"
    by (simp add: initial_world_def CreateLayerEncoder_def sample_handler_def)
  show ?thesis using h Encode_not_applicable [OF h] by simp
qed

text \<open>
  C7. When the handler gives a record, the encoder has its writer and the sink rejects
  the write with \<open>err\<close>, \<open>Encode\<close> returns \<open>err\<close> to its caller: the outcome is a
  return, not a panic, and exactly one write was attempted (one failed write is added to
  the trace, one scripted outcome is used up).
\<close>

theorem Encode_returns_sink_error:
  assumes "Handler (heap s r) l (TimeToString t) = Some m"
    and "(if csv (heap s r) then csvWriter (heap s r) else aWriter (heap s r)) = Some w"
    and "wr_outcomes s = Some err # rest"
  shows "fst (Encode TimeToString r l t s) = Return (Some err)
    \<and> trace (snd (Encode TimeToString r l t s)) =
        trace s @ [WriteFailed w (if csv (heap s r) then CSVRecordRow m else Frame m) err]
    \<and> wr_outcomes (snd (Encode TimeToString r l t s)) = rest"
  using assms
  by (auto simp add: Encode_def WriteRecord_def PutProto_def writer_call_def sink_write_def
      split: if_splits)

lemma failing_world_writer:
  "(if csv (heap failing_world TCPEncoder) then csvWriter (heap failing_world TCPEncoder)
    else aWriter (heap failing_world TCPEncoder)) =
   Some (NewAtomicDelimitedWriter (delimited_NewWriter (os_File (Some (File (filepath_Join ''out'' ''TCP'') ''.ncap'')))))"
  by (simp add: failing_world_def Init_def initial_world_def CreateLayerEncoder_def CreateFile_def Let_def)

text \<open>An initialized TCP encoder whose sink reports a full disk.\<close>

theorem Encode_returns_sink_error_witness:
  "fst (Encode (\<lambda>t. ''1.000000'') TCPEncoder [1] 0 failing_world) = Return (Some (IOError ''disk full''))
   \<and> trace (snd (Encode (\<lambda>t. ''1.000000'') TCPEncoder [1] 0 failing_world)) =
       trace failing_world @
        [WriteFailed (NewAtomicDelimitedWriter (delimited_NewWriter (os_File (Some (File (filepath_Join ''out'' ''TCP'') ''.ncap'')))))
           (Frame (Record ''1.000000'')) (IOError ''disk full'')]
   \<and> wr_outcomes (snd (Encode (\<lambda>t. ''1.000000'') TCPEncoder [1] 0 failing_world)) = []"
proof -
  have h1: "Handler (heap failing_world TCPEncoder) [1] ((\<lambda>t. ''1.000000'') 0) = Some (Record ''1.000000'')"
    by (simp add: failing_world_def Init_heap_fields initial_world_def CreateLayerEncoder_def sample_handler_def)
  have h3: "wr_outcomes failing_world = Some (IOError ''disk full'') # []"
    by (simp add: failing_world_def)
  have c: "csv (heap failing_world TCPEncoder) = False"
    by (simp add: failing_world_def Init_csv_flag)
  show ?thesis
    using Encode_returns_sink_error [OF h1 failing_world_writer h3] c by simp
qed

text \<open>
  C8. \<open>Destroy\<close> asks, in this order: the compressor to be closed when compression is
  on, the buffer to be flushed when buffering is on, the file to be closed; it returns
  what closing the file reports, its final name and size.
\<close>

theorem Destroy_order:
  "trace (snd (Destroy r s)) =
     trace s
     @ (if compress (heap s r) then [GzipClosed (gWriter (heap s r))] else [])
     @ (if buffer (heap s r) then [Flushed (bWriter (heap s r))] else [])
     @ [FileClosed (out (heap s r)) (file' (heap s r)) (LayerType_String (Layer (heap s r)))]
   \<and> fst (Destroy r s) = stat s (file' (heap s r))"
  by (simp add: Destroy_def CloseGzipWriters_def FlushWriters_def CloseFile_def Let_def)

text \<open>
  C9. For an encoder backed by a file (tabular output, or binary output without a
  channel), \<open>Init\<close> succeeds and creates exactly one file: in the directory \<open>out\<close>, named
  after the layer, with extension \<open>.csv\<close>, \<open>.csv.gz\<close>, \<open>.ncap\<close> or \<open>.ncap.gz\<close> by
  shape and compression.
\<close>

theorem Init_file_name:
  assumes "cs \<or> \<not> wc"
  shows "fst (Init r b cm cs ou wc s) = Return ()
    \<and> file' (heap (snd (Init r b cm cs ou wc s)) r) =
        Some (File (filepath_Join ou (LayerType_String (Layer (heap s r))))
          (if cs then (if cm then ''.csv.gz'' else ''.csv'')
           else (if cm then ''.ncap.gz'' else ''.ncap'')))
    \<and> trace (snd (Init r b cm cs ou wc s)) =
        trace s @ [FileCreated (File (filepath_Join ou (LayerType_String (Layer (heap s r))))
          (if cs then (if cm then ''.csv.gz'' else ''.csv'')
           else (if cm then ''.ncap.gz'' else ''.ncap'')))]"
  using assms
  by (auto simp add: Init_outcome Init_file_field Init_trace layer_name_def)

text \<open>The DNS encoder: compressed tabular output, and plain binary output.\<close>

theorem Init_file_name_witness:
  "file' (heap (snd (Init DNSEncoder True True True ''out'' False initial_world)) DNSEncoder) =
     Some (File (filepath_Join ''out'' ''DNS'') ''.csv.gz'')
   \<and> file' (heap (snd (Init DNSEncoder False False False ''out'' False initial_world)) DNSEncoder) =
     Some (File (filepath_Join ''out'' ''DNS'') ''.ncap'')"
  using Init_file_name [of True False DNSEncoder True True "''out''" initial_world]
    Init_file_name [of False False DNSEncoder False False "''out''" initial_world]
  by (simp add: initial_world_def CreateLayerEncoder_def)

text \<open>
  C3 (as amended). With the channel requested and buffering or compression on, \<open>Init\<close>
  of a binary encoder panics before it creates a file. Tabular output returns at line
  260, before the check of line 263: there the channel flag is never read, the \<open>.csv\<close>
  file is created and \<open>Init\<close> returns normally.
\<close>

theorem Init_live_stream_check:
  assumes "wc" and "b \<or> cm"
  shows "if cs
         then fst (Init r b cm cs ou wc s) = Return ()
            \<and> trace (snd (Init r b cm cs ou wc s)) =
                trace s @ [FileCreated (File (filepath_Join ou (LayerType_String (Layer (heap s r))))
                             (if cm then ''.csv.gz'' else ''.csv''))]
         else fst (Init r b cm cs ou wc s) =
                Panic (PanicString ''buffering or compression cannot be activated when running using writeChan'')
            \<and> trace (snd (Init r b cm cs ou wc s)) = trace s"
  using assms
  by (auto simp add: Init_outcome Init_trace layer_name_def)

text \<open>Binary output into a channel with buffering: a panic, and the trace is untouched.\<close>

theorem Init_live_stream_check_witness:
  "fst (Init TCPEncoder True False False ''out'' True initial_world) =
      Panic (PanicString ''buffering or compression cannot be activated when running using writeChan'')
   \<and> trace (snd (Init TCPEncoder True False False ''out'' True initial_world)) = trace initial_world"
  using Init_live_stream_check [of True True False False TCPEncoder "''out''" initial_world]
  by simp

text \<open>
  C3 as stated fails for tabular output: with the channel and buffering both requested,
  \<open>Init\<close> returns normally and has created the \<open>.csv\<close> file.
\<close>

theorem Init_tabular_live_stream_counterexample:
  "fst (Init TCPEncoder True False True ''out'' True initial_world) = Return ()
   \<and> trace (snd (Init TCPEncoder True False True ''out'' True initial_world)) =
       [FileCreated (File (filepath_Join ''out'' ''TCP'') ''.csv'')]"
  by (simp add: Init_outcome Init_trace layer_name_def initial_world_def CreateLayerEncoder_def)

subsection \<open>The active set\<close>

text \<open>
  The active set on include strings the guard of line 128 reads as meant. Take a
  configuration whose names are all known, a slice whose layer names are pairwise
  distinct, and an include string that is empty, or starts with a name, or holds no name
  at all. Then the slice after \<open>InitLayerEncoders\<close> is the spec's
  active set: the whole catalog when no name is included, otherwise the included
  entries, with the excluded entries taken out. It is a subsequence of the catalog
  (catalog order), no entry of it is excluded (exclude wins), and no name is reported as
  invalid.
\<close>

theorem InitLayerEncoders_resolves:
  assumes valid: "\<forall>n\<in>includeNames c \<union> excludeNames c. n \<in> allEncoderNames s"
    and dist: "distinct (map (layer_name s) (layerEncoderSlice s))"
    and guard: "hd (strings_Split (IncludeEncoders c)) \<noteq> [] \<or> includeNames c = {}"
  shows "layerEncoderSlice (snd (InitLayerEncoders c s)) =
           Resolve_spec (layer_name s) (includeNames c) (excludeNames c) (layerEncoderSlice s)
       \<and> subseq (layerEncoderSlice (snd (InitLayerEncoders c s))) (layerEncoderSlice s)
       \<and> (\<forall>e\<in>set (layerEncoderSlice (snd (InitLayerEncoders c s))). layer_name s e \<notin> excludeNames c)
       \<and> (\<forall>n. fst (InitLayerEncoders c s) \<noteq> Panic (InvalidProto n))"
proof -
  have r: "resolve_slice (allEncoderNames s) (layer_name s) c (layerEncoderSlice s) =
      (None, Resolve_spec (layer_name s) (includeNames c) (excludeNames c) (layerEncoderSlice s))"
    using valid dist guard by (rule resolve_slice_ok)
  then have eq: "layerEncoderSlice (snd (InitLayerEncoders c s)) =
           Resolve_spec (layer_name s) (includeNames c) (excludeNames c) (layerEncoderSlice s)"
    by (simp add: InitLayerEncoders_slice)
  have sub: "subseq (layerEncoderSlice (snd (InitLayerEncoders c s))) (layerEncoderSlice s)"
    using resolve_slice_subseq [of "allEncoderNames s" "layer_name s" c "layerEncoderSlice s"]
    by (simp add: InitLayerEncoders_slice)
  have wins: "\<forall>e\<in>set (layerEncoderSlice (snd (InitLayerEncoders c s))). layer_name s e \<notin> excludeNames c"
    unfolding eq by (simp add: Resolve_spec_def)
  have nofail: "fst (InitLayerEncoders c s) \<noteq> Panic (InvalidProto n)" for n
  proof -
    let ?sl = "snd (resolve_slice (allEncoderNames s) (layer_name s) c (layerEncoderSlice s))"
    have "InitLayerEncoders c s = init_loop c ?sl (s\<lparr>layerEncoderSlice := ?sl\<rparr>)"
      using r by (simp add: InitLayerEncoders_chosen)
    moreover have "fst (init_loop c es t) \<noteq> Panic (InvalidProto n)" for es t
    proof (induction es arbitrary: t)
      case Nil
      then show ?case by simp
    next
      case (Cons e es)
      obtain o1 s1 where i: "Init e (Buffer c) (Compression c) (CSV c) (Out c) (WriteChan c) t = (o1, s1)"
        by (cases "Init e (Buffer c) (Compression c) (CSV c) (Out c) (WriteChan c) t")
      have o1: "o1 \<noteq> Panic (InvalidProto n)"
        using Init_outcome [of e "Buffer c" "Compression c" "CSV c" "Out c" "WriteChan c" t]
        by (auto simp add: i split: if_splits)
      have w: "fst (write_header c e s1) \<noteq> Panic (InvalidProto n)"
        by (auto simp add: write_header_def WriteHeader_def PutProto_def writer_call_def
            split: prod.splits Outcome.splits option.splits)
      show ?case using i o1 w Cons.IH
        by (auto split: prod.splits Outcome.splits)
    qed
    ultimately show ?thesis by simp
  qed
  from eq sub wins nofail show ?thesis by blast
qed

text \<open>Include TCP, DNS and UDP, exclude UDP: TCP and DNS remain, in catalog order.\<close>

theorem InitLayerEncoders_resolves_witness:
  "includeNames cfg_include_exclude = {''TCP'', ''DNS'', ''UDP''}
   \<and> excludeNames cfg_include_exclude = {''UDP''}
   \<and> layerEncoderSlice (snd (InitLayerEncoders cfg_include_exclude initial_world)) = [TCPEncoder, DNSEncoder]"
proof -
  have i: "includeNames cfg_include_exclude = {''TCP'', ''DNS'', ''UDP''}"
    by (auto simp add: includeNames_def names_of_def cfg_include_exclude_def sample_config_def)
  have e: "excludeNames cfg_include_exclude = {''UDP''}"
    by (auto simp add: excludeNames_def names_of_def cfg_include_exclude_def sample_config_def)
  have valid: "\<forall>n\<in>includeNames cfg_include_exclude \<union> excludeNames cfg_include_exclude.
      n \<in> allEncoderNames initial_world"
    unfolding i e by (simp add: initial_names layerEncoderSlice_initial_def)
  have guard: "hd (strings_Split (IncludeEncoders cfg_include_exclude)) \<noteq> []
      \<or> includeNames cfg_include_exclude = {}"
    by (simp add: cfg_include_exclude_def sample_config_def)
  have "Resolve_spec (layer_name initial_world) (includeNames cfg_include_exclude)
          (excludeNames cfg_include_exclude) (layerEncoderSlice initial_world) = [TCPEncoder, DNSEncoder]"
    unfolding i e by (simp add: Resolve_spec_def initial_layer_name initial_slice layerEncoderSlice_initial_def)
  with InitLayerEncoders_resolves [OF valid initial_distinct guard] i e show ?thesis by simp
qed

text \<open>
  C1. The active set is the whole catalog when no name is included, otherwise the catalog
  entries that are included, with the excluded entries taken out, in catalog order. The
  code misses this when the include string starts with a comma. For \<open>",TCP"\<close> the
  included names are \<open>{TCP}\<close> and nothing is excluded, so the active set is the TCP
  encoder alone; but line 128 looks at the first comma-separated entry only, finds it
  empty and skips the include block, and the whole catalog stays active. Line 131 skips
  empty entries one by one, and the exclude loop of lines 148 to 162 treats a leading
  empty entry that way; the guard of line 128 does not.
\<close>

theorem leading_comma_keeps_whole_catalog:
  "includeNames cfg_leading_comma = {''TCP''}
   \<and> excludeNames cfg_leading_comma = {}
   \<and> Resolve_spec (layer_name initial_world) (includeNames cfg_leading_comma)
        (excludeNames cfg_leading_comma) (layerEncoderSlice initial_world) = [TCPEncoder]
   \<and> layerEncoderSlice (snd (InitLayerEncoders cfg_leading_comma initial_world)) = layerEncoderSlice_initial
   \<and> layerEncoderSlice_initial \<noteq> [TCPEncoder]"
proof -
  have i: "includeNames cfg_leading_comma = {''TCP''}"
    by (auto simp add: includeNames_def names_of_def cfg_leading_comma_def sample_config_def)
  have e: "excludeNames cfg_leading_comma = {}"
    by (auto simp add: excludeNames_def names_of_def cfg_leading_comma_def sample_config_def)
  have r: "Resolve_spec (layer_name initial_world) (includeNames cfg_leading_comma)
        (excludeNames cfg_leading_comma) (layerEncoderSlice initial_world) = [TCPEncoder]"
    unfolding i e by (simp add: Resolve_spec_def initial_layer_name initial_slice layerEncoderSlice_initial_def)
  have c: "layerEncoderSlice (snd (InitLayerEncoders cfg_leading_comma initial_world)) = layerEncoderSlice_initial"
    by (simp add: InitLayerEncoders_slice resolve_slice_def Let_def cfg_leading_comma_def
        sample_config_def initial_slice)
  have "layerEncoderSlice_initial \<noteq> [TCPEncoder]" by (simp add: layerEncoderSlice_initial_def)
  with i e r c show ?thesis by blast
qed

text \<open>
  Unknown names on include strings the guard of line 128 reads as meant. If an exclude
  name is unknown, or an include name is unknown and the include string starts with a
  name, \<open>InitLayerEncoders\<close> ends fatally reporting an
  unknown name of the configuration, and no encoder has been built: nothing was created
  or written, no encoder object was touched and nothing was registered.
\<close>

theorem unknown_name_is_fatal:
  assumes "(hd (strings_Split (IncludeEncoders c)) \<noteq> [] \<and> (\<exists>n\<in>includeNames c. n \<notin> allEncoderNames s))
           \<or> (\<exists>n\<in>excludeNames c. n \<notin> allEncoderNames s)"
  shows "\<exists>n. n \<in> includeNames c \<union> excludeNames c \<and> n \<notin> allEncoderNames s
           \<and> fst (InitLayerEncoders c s) = Panic (InvalidProto n)
           \<and> trace (snd (InitLayerEncoders c s)) = trace s
           \<and> heap (snd (InitLayerEncoders c s)) = heap s
           \<and> LayerEncoders (snd (InitLayerEncoders c s)) = LayerEncoders s"
proof -
  from resolve_slice_fail [OF assms, of "layer_name s" "layerEncoderSlice s"]
  obtain n sl' where n: "n \<in> includeNames c \<union> excludeNames c" "n \<notin> allEncoderNames s"
    and r: "resolve_slice (allEncoderNames s) (layer_name s) c (layerEncoderSlice s) = (Some (InvalidProto n), sl')"
    by blast
  from r have "InitLayerEncoders c s = (Panic (InvalidProto n), s\<lparr>layerEncoderSlice := sl'\<rparr>)"
    by (simp add: InitLayerEncoders_fatal)
  with n show ?thesis by auto
qed

text \<open>Include TCP and the unknown BOGUS: the run ends with BOGUS, before any file exists.\<close>

theorem unknown_name_is_fatal_witness:
  "fst (InitLayerEncoders cfg_unknown initial_world) = Panic (InvalidProto ''BOGUS'')
   \<and> trace (snd (InitLayerEncoders cfg_unknown initial_world)) = []
   \<and> LayerEncoders (snd (InitLayerEncoders cfg_unknown initial_world)) = Map.empty"
proof -
  have i: "includeNames cfg_unknown = {''TCP'', ''BOGUS''}"
    by (auto simp add: includeNames_def names_of_def cfg_unknown_def sample_config_def)
  have e: "excludeNames cfg_unknown = {}"
    by (auto simp add: excludeNames_def names_of_def cfg_unknown_def sample_config_def)
  have tcp: "''TCP'' \<in> allEncoderNames initial_world"
    by (simp add: initial_names layerEncoderSlice_initial_def)
  have bogus: "''BOGUS'' \<notin> allEncoderNames initial_world"
    by (simp add: initial_names layerEncoderSlice_initial_def)
  have h: "(hd (strings_Split (IncludeEncoders cfg_unknown)) \<noteq> []
            \<and> (\<exists>n\<in>includeNames cfg_unknown. n \<notin> allEncoderNames initial_world))
           \<or> (\<exists>n\<in>excludeNames cfg_unknown. n \<notin> allEncoderNames initial_world)"
    unfolding i using bogus by (simp add: cfg_unknown_def sample_config_def)
  from unknown_name_is_fatal [OF h] obtain n where
    n: "n \<in> includeNames cfg_unknown \<union> excludeNames cfg_unknown" "n \<notin> allEncoderNames initial_world"
    and f: "fst (InitLayerEncoders cfg_unknown initial_world) = Panic (InvalidProto n)"
      "trace (snd (InitLayerEncoders cfg_unknown initial_world)) = trace initial_world"
      "LayerEncoders (snd (InitLayerEncoders cfg_unknown initial_world)) = LayerEncoders initial_world"
    by blast
  from n tcp have "n = ''BOGUS''" unfolding i e by auto
  with f show ?thesis by (simp add: initial_world_def)
qed

text \<open>
  C4. A configuration that names an unknown protocol must end initialization fatally,
  before any encoder is built. The code misses this when the include string starts with
  a comma. For \<open>",BOGUS"\<close> the unknown name is among the included names, but line 128
  skips the include block together with the check of lines 133 to 135, and initialization
  completes. It is the defect shown for C1.
\<close>

theorem leading_comma_skips_validation:
  "''BOGUS'' \<in> includeNames cfg_unknown_skipped
   \<and> ''BOGUS'' \<notin> allEncoderNames initial_world
   \<and> fst (InitLayerEncoders cfg_unknown_skipped initial_world) = Return ()"
proof -
  have i: "''BOGUS'' \<in> includeNames cfg_unknown_skipped"
    by (simp add: includeNames_def names_of_def cfg_unknown_skipped_def sample_config_def)
  have bogus: "''BOGUS'' \<notin> allEncoderNames initial_world"
    by (simp add: initial_names layerEncoderSlice_initial_def)
  have r: "resolve_slice (allEncoderNames initial_world) (layer_name initial_world) cfg_unknown_skipped
        (layerEncoderSlice initial_world) = (None, layerEncoderSlice initial_world)"
    by (simp add: resolve_slice_def Let_def cfg_unknown_skipped_def sample_config_def)
  have nc: "no_live_conflict cfg_unknown_skipped"
    by (simp add: no_live_conflict_def cfg_unknown_skipped_def sample_config_def)
  have "fst (InitLayerEncoders cfg_unknown_skipped initial_world) = Return ()"
    using r by (simp add: InitLayerEncoders_chosen init_loop_succeeds [OF nc] initial_world_def)
  with i bogus show ?thesis by blast
qed

subsection \<open>Headers and repeated initialization\<close>

lemma init_loop_header_list:
  "distinct es \<Longrightarrow> fst (init_loop c es s) = Return () \<Longrightarrow>
   \<exists>evs. trace (snd (init_loop c es s)) = trace s @ evs
     \<and> list_all2 (\<lambda>ev e. \<exists>w. header_writer (heap (snd (init_loop c es s)) e) = Some w
                          \<and> ev = Written w (header_payload c (heap (snd (init_loop c es s)) e)))
         (filter is_write evs) es"
proof (induction es arbitrary: s)
  case Nil
  then show ?case by simp
next
  case (Cons x es)
  obtain o1 s1 where i: "Init x (Buffer c) (Compression c) (CSV c) (Out c) (WriteChan c) s = (o1, s1)"
    by (cases "Init x (Buffer c) (Compression c) (CSV c) (Out c) (WriteChan c) s")
  obtain o2 s2 where w: "write_header c x s1 = (o2, s2)" by (cases "write_header c x s1")
  from Cons.prems(2) i have o1: "o1 = Return ()" by (cases o1) auto
  from Cons.prems(2) i o1 w have o2: "o2 = Return ()" by (cases o2) auto
  let ?s3 = "s2\<lparr>LayerEncoders := (LayerEncoders s2)(Layer (heap s2 x) \<mapsto> x)\<rparr>"
  have step: "init_loop c (x # es) s = init_loop c es ?s3"
    using i w o1 o2 by simp
  from Init_trace_writes [of x "Buffer c" "Compression c" "CSV c" "Out c" "WriteChan c" s] i
  obtain evs1 where t1: "trace s1 = trace s @ evs1" "filter is_write evs1 = []" by auto
  from Init_writer [of x "Buffer c" "Compression c" "CSV c" "Out c" "WriteChan c" s] i o1
  obtain wr where hw: "header_writer (heap s1 x) = Some wr" by auto
  have t2: "trace s2 = trace s1 @ [Written wr (header_payload c (heap s1 x))]" and h2: "heap s2 = heap s1"
    using write_header_eq [OF hw, of c] w o2 by (auto split: list.splits option.splits)
  from Cons.prems(1) have nin: "x \<notin> set es" and d: "distinct es" by auto
  have fin: "fst (init_loop c es ?s3) = Return ()" using Cons.prems(2) step by simp
  from Cons.IH [OF d fin] obtain evs where
    t3: "trace (snd (init_loop c es ?s3)) = trace ?s3 @ evs" and
    f3: "list_all2 (\<lambda>ev e. \<exists>w. header_writer (heap (snd (init_loop c es ?s3)) e) = Some w
                          \<and> ev = Written w (header_payload c (heap (snd (init_loop c es ?s3)) e)))
         (filter is_write evs) es"
    by blast
  have hx: "heap (snd (init_loop c es ?s3)) x = heap s1 x"
    using init_loop_heap_other [OF nin, of c ?s3] h2 by simp
  show ?case
    unfolding step
  proof (intro exI conjI)
    show "trace (snd (init_loop c es ?s3)) =
        trace s @ (evs1 @ [Written wr (header_payload c (heap s1 x))] @ evs)"
      using t1 t2 t3 by simp
    show "list_all2 (\<lambda>ev e. \<exists>w. header_writer (heap (snd (init_loop c es ?s3)) e) = Some w
                          \<and> ev = Written w (header_payload c (heap (snd (init_loop c es ?s3)) e)))
         (filter is_write (evs1 @ [Written wr (header_payload c (heap s1 x))] @ evs)) (x # es)"
      using t1(2) f3 hx hw by simp
  qed
qed

lemma Encode_trace_prefix: "prefix (trace s) (trace (snd (Encode tts r l t s)))"
  by (auto simp add: Encode_def WriteRecord_def PutProto_def writer_call_def sink_write_def Let_def
      split: option.splits list.splits prod.splits Outcome.splits)

text \<open>
  C10. \<open>InitLayerEncoders\<close> leaves its selection in the package variable, so a second
  call selects from what the first call left, not from the original catalog. Excluding
  TCP first and including TCP afterwards yields no encoder at all, although including TCP
  on the original catalog yields the TCP encoder.
\<close>

theorem second_call_resolves_remnant:
  "layerEncoderSlice (snd (InitLayerEncoders c1 s)) =
     snd (resolve_slice (allEncoderNames s) (layer_name s) c1 (layerEncoderSlice s))
   \<and> layerEncoderSlice (snd (InitLayerEncoders c2 (snd (InitLayerEncoders c1 s)))) =
     snd (resolve_slice (allEncoderNames s) (layer_name s) c2
           (layerEncoderSlice (snd (InitLayerEncoders c1 s))))
   \<and> layerEncoderSlice (snd (InitLayerEncoders cfg_exclude_tcp initial_world)) = tl layerEncoderSlice_initial
   \<and> layerEncoderSlice (snd (InitLayerEncoders cfg_include_tcp
        (snd (InitLayerEncoders cfg_exclude_tcp initial_world)))) = []
   \<and> layerEncoderSlice (snd (InitLayerEncoders cfg_include_tcp initial_world)) = [TCPEncoder]"
proof -
  have a: "layerEncoderSlice (snd (InitLayerEncoders c1 s)) =
     snd (resolve_slice (allEncoderNames s) (layer_name s) c1 (layerEncoderSlice s))"
    by (rule InitLayerEncoders_slice)
  have b: "layerEncoderSlice (snd (InitLayerEncoders c2 (snd (InitLayerEncoders c1 s)))) =
     snd (resolve_slice (allEncoderNames s) (layer_name s) c2
           (layerEncoderSlice (snd (InitLayerEncoders c1 s))))" for c1 c2 s
    by (simp add: InitLayerEncoders_slice [of c2] InitLayerEncoders_names)
  have c: "layerEncoderSlice (snd (InitLayerEncoders cfg_exclude_tcp initial_world)) = tl layerEncoderSlice_initial"
    by (simp add: InitLayerEncoders_slice resolve_slice_def Let_def remove_encoder_def
        cfg_exclude_tcp_def sample_config_def initial_layer_name initial_slice initial_names
        layerEncoderSlice_initial_def)
  have d: "layerEncoderSlice (snd (InitLayerEncoders cfg_include_tcp
        (snd (InitLayerEncoders cfg_exclude_tcp initial_world)))) = []"
    unfolding b c
    by (simp add: resolve_slice_def Let_def cfg_include_tcp_def sample_config_def
        initial_layer_name initial_names layerEncoderSlice_initial_def)
  have e: "layerEncoderSlice (snd (InitLayerEncoders cfg_include_tcp initial_world)) = [TCPEncoder]"
    by (simp add: InitLayerEncoders_slice resolve_slice_def Let_def
        cfg_include_tcp_def sample_config_def initial_layer_name initial_slice initial_names
        layerEncoderSlice_initial_def)
  from a b c d e show ?thesis by blast
qed

text \<open>
  C5. Let the slice list every encoder object once. If \<open>InitLayerEncoders\<close> completes,
  the writes it made are, in the order of the chosen encoders, exactly one successful
  header per encoder, through that encoder's own writer: the column row for a tabular
  sink, the header record for a binary one. No other write happens during
  initialization, and a later \<open>Encode\<close> only appends to the trace, so every data record
  comes after the header. If the sink rejects the header of the chosen encoder number
  \<open>k\<close> with \<open>err\<close>, initialization ends in a panic with \<open>err\<close>.
\<close>

theorem header_written_once:
  assumes "distinct (layerEncoderSlice s)"
  shows "(fst (InitLayerEncoders c s) = Return () \<longrightarrow>
            list_all2 (\<lambda>ev e. \<exists>w. header_writer (heap (snd (InitLayerEncoders c s)) e) = Some w
                          \<and> ev = Written w (header_payload c (heap (snd (InitLayerEncoders c s)) e)))
              (filter is_write (drop (length (trace s)) (trace (snd (InitLayerEncoders c s)))))
              (layerEncoderSlice (snd (InitLayerEncoders c s))))
       \<and> (fst (resolve c s) = Return () \<and> no_live_conflict c
            \<and> k < length (layerEncoderSlice (snd (resolve c s)))
            \<and> wr_outcomes s = replicate k None @ Some err # rest \<longrightarrow>
          fst (InitLayerEncoders c s) = Panic (PanicError err))
       \<and> prefix (trace (snd (InitLayerEncoders c s)))
            (trace (snd (Encode tts e l t (snd (InitLayerEncoders c s)))))"
proof (intro conjI impI)
  let ?sl = "snd (resolve_slice (allEncoderNames s) (layer_name s) c (layerEncoderSlice s))"
  let ?s1 = "s\<lparr>layerEncoderSlice := ?sl\<rparr>"
  show "prefix (trace (snd (InitLayerEncoders c s)))
            (trace (snd (Encode tts e l t (snd (InitLayerEncoders c s)))))"
    by (rule Encode_trace_prefix)
  {
    assume ok: "fst (InitLayerEncoders c s) = Return ()"
    have n: "fst (resolve_slice (allEncoderNames s) (layer_name s) c (layerEncoderSlice s)) = None"
    proof (cases "fst (resolve_slice (allEncoderNames s) (layer_name s) c (layerEncoderSlice s))")
      case None
      then show ?thesis .
    next
      case (Some f)
      with ok show ?thesis by (simp add: InitLayerEncoders_fatal)
    qed
    have eq: "InitLayerEncoders c s = init_loop c ?sl ?s1"
      using n by (rule InitLayerEncoders_chosen)
    have "?sl \<in> set (subseqs (layerEncoderSlice s))"
      using resolve_slice_subseq [of "allEncoderNames s" "layer_name s" c "layerEncoderSlice s"]
      by simp
    then have d: "distinct ?sl" using assms by (rule subseqs_distinctD)
    from ok eq have "fst (init_loop c ?sl ?s1) = Return ()" by simp
    from init_loop_header_list [OF d this] obtain evs where
      t: "trace (snd (init_loop c ?sl ?s1)) = trace ?s1 @ evs" and
      l: "list_all2 (\<lambda>ev e. \<exists>w. header_writer (heap (snd (init_loop c ?sl ?s1)) e) = Some w
                          \<and> ev = Written w (header_payload c (heap (snd (init_loop c ?sl ?s1)) e)))
         (filter is_write evs) ?sl"
      by blast
    have sl: "layerEncoderSlice (snd (init_loop c ?sl ?s1)) = ?sl"
      by (simp add: init_loop_frame)
    from t have "drop (length (trace s)) (trace (snd (init_loop c ?sl ?s1))) = evs" by simp
    with l sl show "list_all2 (\<lambda>ev e. \<exists>w. header_writer (heap (snd (InitLayerEncoders c s)) e) = Some w
                          \<and> ev = Written w (header_payload c (heap (snd (InitLayerEncoders c s)) e)))
              (filter is_write (drop (length (trace s)) (trace (snd (InitLayerEncoders c s)))))
              (layerEncoderSlice (snd (InitLayerEncoders c s)))"
      unfolding eq by simp
  }
  {
    assume h: "fst (resolve c s) = Return () \<and> no_live_conflict c
            \<and> k < length (layerEncoderSlice (snd (resolve c s)))
            \<and> wr_outcomes s = replicate k None @ Some err # rest"
    have n: "fst (resolve_slice (allEncoderNames s) (layer_name s) c (layerEncoderSlice s)) = None"
      using h by (auto simp add: resolve_def split: prod.splits option.splits)
    then have rs: "snd (resolve c s) = ?s1"
      by (auto simp add: resolve_def split: prod.splits option.splits)
    have eq: "InitLayerEncoders c s = init_loop c ?sl ?s1"
      using n by (rule InitLayerEncoders_chosen)
    have "fst (init_loop c ?sl ?s1) = Panic (PanicError err)"
    proof (rule init_loop_header_failure)
      show "no_live_conflict c" using h by simp
      show "wr_outcomes ?s1 = replicate k None @ Some err # rest" using h by simp
      show "k < length ?sl" using h rs by simp
    qed
    then show "fst (InitLayerEncoders c s) = Panic (PanicError err)" by (simp add: eq)
  }
qed

lemma cfg_two_resolve:
  "resolve_slice (allEncoderNames initial_world) (layer_name initial_world) cfg_two
     (layerEncoderSlice initial_world) = (None, [TCPEncoder, DNSEncoder])"
  by (simp add: resolve_slice_def Let_def cfg_two_def sample_config_def initial_layer_name
      initial_slice initial_names layerEncoderSlice_initial_def)

text \<open>
  TCP and DNS chosen: two headers when the sinks accept them; a panic when the second
  header is rejected.
\<close>

theorem header_written_once_witness:
  "fst (InitLayerEncoders cfg_two initial_world) = Return ()
   \<and> layerEncoderSlice (snd (InitLayerEncoders cfg_two initial_world)) = [TCPEncoder, DNSEncoder]
   \<and> list_all2 (\<lambda>ev e. \<exists>w. header_writer (heap (snd (InitLayerEncoders cfg_two initial_world)) e) = Some w
          \<and> ev = Written w (header_payload cfg_two (heap (snd (InitLayerEncoders cfg_two initial_world)) e)))
        (filter is_write (drop (length (trace initial_world)) (trace (snd (InitLayerEncoders cfg_two initial_world)))))
        [TCPEncoder, DNSEncoder]
   \<and> fst (InitLayerEncoders cfg_two header_fail_world) = Panic (PanicError (IOError ''disk full''))"
proof -
  have nc: "no_live_conflict cfg_two"
    by (simp add: no_live_conflict_def cfg_two_def sample_config_def)
  have w0: "wr_outcomes (initial_world\<lparr>layerEncoderSlice := [TCPEncoder, DNSEncoder]\<rparr>) = []"
    by (simp add: initial_world_def)
  have eq: "InitLayerEncoders cfg_two initial_world =
      init_loop cfg_two [TCPEncoder, DNSEncoder] (initial_world\<lparr>layerEncoderSlice := [TCPEncoder, DNSEncoder]\<rparr>)"
    using cfg_two_resolve by (simp add: InitLayerEncoders_chosen del: init_loop.simps)
  have ok: "fst (InitLayerEncoders cfg_two initial_world) = Return ()"
    unfolding eq using nc w0 by (rule init_loop_succeeds)
  have sl: "layerEncoderSlice (snd (InitLayerEncoders cfg_two initial_world)) = [TCPEncoder, DNSEncoder]"
    using cfg_two_resolve by (simp add: InitLayerEncoders_slice)
  have fw: "resolve_slice (allEncoderNames header_fail_world) (layer_name header_fail_world) cfg_two
     (layerEncoderSlice header_fail_world) = (None, [TCPEncoder, DNSEncoder])"
  proof -
    have "layer_name header_fail_world = layer_name initial_world"
      by (simp add: fun_eq_iff layer_name_def header_fail_world_def)
    then show ?thesis using cfg_two_resolve by (simp add: header_fail_world_def)
  qed
  have h: "fst (resolve cfg_two header_fail_world) = Return () \<and> no_live_conflict cfg_two
      \<and> 1 < length (layerEncoderSlice (snd (resolve cfg_two header_fail_world)))
      \<and> wr_outcomes header_fail_world = replicate 1 None @ Some (IOError ''disk full'') # []"
    using fw nc by (simp add: resolve_def header_fail_world_def)
  have d2: "distinct (layerEncoderSlice header_fail_world)"
    using initial_distinct_refs by (simp add: header_fail_world_def)
  from header_written_once [OF initial_distinct_refs, of cfg_two] ok sl
    header_written_once [OF d2, of cfg_two 1 "IOError ''disk full''" "[]"] h
  show ?thesis by simp
qed

subsection \<open>Further properties\<close>

text \<open>
  The selection for any include string. Whether the include names count is decided by
  the first comma-separated entry alone (line 128): when it is empty the include block is
  skipped, its names are neither checked nor used, and only the exclusions apply.
\<close>

theorem selection_by_first_entry:
  assumes "\<forall>n\<in>excludeNames c. n \<in> allEncoderNames s"
    and "hd (strings_Split (IncludeEncoders c)) \<noteq> [] \<longrightarrow> (\<forall>n\<in>includeNames c. n \<in> allEncoderNames s)"
    and "distinct (map (layer_name s) (layerEncoderSlice s))"
  shows "layerEncoderSlice (snd (InitLayerEncoders c s)) =
           filter (\<lambda>e. layer_name s e \<notin> excludeNames c)
              (if hd (strings_Split (IncludeEncoders c)) \<noteq> []
               then filter (\<lambda>e. layer_name s e \<in> includeNames c) (layerEncoderSlice s)
               else layerEncoderSlice s)"
  using resolve_slice_eq [OF assms] by (simp add: InitLayerEncoders_slice)

text \<open>The include string \<open>",TCP"\<close>: the first entry is empty and the catalog stays whole.\<close>

theorem selection_by_first_entry_witness:
  "hd (strings_Split (IncludeEncoders cfg_leading_comma)) = []
   \<and> layerEncoderSlice (snd (InitLayerEncoders cfg_leading_comma initial_world)) = layerEncoderSlice_initial"
proof -
  have e: "excludeNames cfg_leading_comma = {}"
    by (auto simp add: excludeNames_def names_of_def cfg_leading_comma_def sample_config_def)
  have h: "hd (strings_Split (IncludeEncoders cfg_leading_comma)) = []"
    by (simp add: cfg_leading_comma_def sample_config_def)
  have a1: "\<forall>n\<in>excludeNames cfg_leading_comma. n \<in> allEncoderNames initial_world"
    unfolding e by simp
  have a2: "hd (strings_Split (IncludeEncoders cfg_leading_comma)) \<noteq> [] \<longrightarrow>
      (\<forall>n\<in>includeNames cfg_leading_comma. n \<in> allEncoderNames initial_world)"
    using h by simp
  from selection_by_first_entry [OF a1 a2 initial_distinct] h e
  show ?thesis by (simp add: initial_slice)
qed

text \<open>
  Whatever the configuration, and also when the run ends fatally, the slice left in the
  package variable is a subsequence of the slice found there.
\<close>

theorem selection_is_subsequence:
  "subseq (layerEncoderSlice (snd (InitLayerEncoders c s))) (layerEncoderSlice s)"
  using resolve_slice_subseq [of "allEncoderNames s" "layer_name s" c "layerEncoderSlice s"]
  by (simp add: InitLayerEncoders_slice)

text \<open>
  The writers \<open>Init\<close> assembles. A tabular sink is the file under the buffer and
  compressor stack, wrapped by \<open>NewCSVWriter\<close>; the atomic writer of the encoder is left
  as it was. A binary sink is the channel, or the file under the same stack, wrapped by
  the length-delimited framer and then by \<open>NewAtomicDelimitedWriter\<close>.
\<close>

theorem Init_writer_stack:
  "if cs then
     csvWriter (heap (snd (Init r b cm cs ou wc s)) r) =
       Some (NewCSVWriter (writer_base b cm (BlockSize s)
         (os_File (Some (File (filepath_Join ou (LayerType_String (Layer (heap s r))))
                      (if cm then ''.csv.gz'' else ''.csv''))))))
     \<and> aWriter (heap (snd (Init r b cm cs ou wc s)) r) = aWriter (heap s r)
   else if wc \<and> (b \<or> cm) then
     aWriter (heap (snd (Init r b cm cs ou wc s)) r) = aWriter (heap s r)
   else if wc then
     aWriter (heap (snd (Init r b cm cs ou wc s)) r) =
       Some (NewAtomicDelimitedWriter (delimited_NewWriter (chanWriter (chans s))))
     \<and> trace (snd (Init r b cm cs ou wc s)) = trace s
   else
     aWriter (heap (snd (Init r b cm cs ou wc s)) r) =
       Some (NewAtomicDelimitedWriter (delimited_NewWriter (writer_base b cm (BlockSize s)
         (os_File (Some (File (filepath_Join ou (LayerType_String (Layer (heap s r))))
                      (if cm then ''.ncap.gz'' else ''.ncap'')))))))"
  by (simp add: Init_def writer_base_def Let_def CreateFile_def newChanWriter_def split: prod.splits)

end
